theory Spec2Isabelle
  imports Main
begin

section \<open>JavaScript values, errors and the built-in Map\<close>

text \<open>
  The peer-mesh coordinator of \<^verbatim>\<open>script.js\<close> is the object \<^verbatim>\<open>StudyRoom\<close>; it talks to
  the process-wide event bus \<^verbatim>\<open>events\<close>, to \<^verbatim>\<open>errorHandler\<close>, to \<^verbatim>\<open>utils.generateId\<close>
  and to the PeerJS transport. Payloads that travel over a data connection are duck-typed
  JavaScript values; the part of them the coordinator inspects is modelled by \<open>jsval\<close>.
\<close>

type_synonym peer_id = string
type_synonym time = nat

datatype jsval =
    JUndefined
  | JNull
  | JBool bool
  | JNum int
  | JStr string
  | JObj "(string \<times> jsval) list"

datatype js_error =
    TypeError
  | JsError string
  | ExternalError string

text \<open>
  Property access \<^verbatim>\<open>v.name\<close>: a TypeError on \<^verbatim>\<open>null\<close> and \<^verbatim>\<open>undefined\<close>, the field of an
  object (or \<^verbatim>\<open>undefined\<close> when it is absent), and \<^verbatim>\<open>undefined\<close> on the other primitives
  for the three names the coordinator reads (\<^verbatim>\<open>type\<close>, \<^verbatim>\<open>sender\<close>, \<^verbatim>\<open>content\<close>).
\<close>

fun get_prop :: "jsval \<Rightarrow> string \<Rightarrow> js_error + jsval" where
  "get_prop JUndefined k = Inl TypeError"
| "get_prop JNull k = Inl TypeError"
| "get_prop (JObj fs) k = Inr (case map_of fs k of None \<Rightarrow> JUndefined | Some v \<Rightarrow> v)"
| "get_prop v k = Inr JUndefined"

text \<open>
  A JavaScript \<^verbatim>\<open>Map\<close> keeps its entries in insertion order, one entry per key:
  \<^verbatim>\<open>set\<close> on a key that is present replaces the value where it stands, \<^verbatim>\<open>set\<close> on a new key
  appends, \<^verbatim>\<open>delete\<close> removes the entry, \<^verbatim>\<open>forEach\<close> visits the values in order.
\<close>

fun Map_set :: "('k \<times> 'v) list \<Rightarrow> 'k \<Rightarrow> 'v \<Rightarrow> ('k \<times> 'v) list" where
  "Map_set [] k v = [(k, v)]"
| "Map_set ((k', v') # m) k v = (if k' = k then (k, v) # m else (k', v') # Map_set m k v)"

definition Map_delete :: "('k \<times> 'v) list \<Rightarrow> 'k \<Rightarrow> ('k \<times> 'v) list" where
  "Map_delete m k = filter (\<lambda>e. fst e \<noteq> k) m"

definition Map_get :: "('k \<times> 'v) list \<Rightarrow> 'k \<Rightarrow> 'v option" where
  "Map_get m k = map_of m k"

definition Map_values :: "('k \<times> 'v) list \<Rightarrow> 'v list" where
  "Map_values m = map snd m"

definition Map_keys :: "('k \<times> 'v) list \<Rightarrow> 'k list" where
  "Map_keys m = map fst m"

section \<open>Strings: \<^verbatim>\<open>slice\<close>, \<^verbatim>\<open>toUpperCase\<close>, UUIDs and the room-code pattern\<close>

text \<open>
  Strings are ASCII here: \<^verbatim>\<open>crypto.randomUUID()\<close> yields ASCII, and the join dialog
  constrains the typed code to \<^verbatim>\<open>[A-Za-z0-9]{6}\<close>. On ASCII, \<^verbatim>\<open>toUpperCase\<close> maps
  \<^verbatim>\<open>a..z\<close> to \<^verbatim>\<open>A..Z\<close> and leaves every other character alone.
\<close>

definition lower_letters :: string where
  "lower_letters = ''abcdefghijklmnopqrstuvwxyz''"

definition upper_letters :: string where
  "upper_letters = ''ABCDEFGHIJKLMNOPQRSTUVWXYZ''"

definition digits :: string where
  "digits = ''0123456789''"

definition is_lower :: "char \<Rightarrow> bool" where
  "is_lower c = (c \<in> set lower_letters)"

definition is_upper :: "char \<Rightarrow> bool" where
  "is_upper c = (c \<in> set upper_letters)"

definition is_digit :: "char \<Rightarrow> bool" where
  "is_digit c = (c \<in> set digits)"

definition is_ascii :: "char \<Rightarrow> bool" where
  "is_ascii c = ((of_char c :: nat) < 128)"

definition is_hex_lower :: "char \<Rightarrow> bool" where
  "is_hex_lower c = (c \<in> set ''0123456789abcdef'')"

definition toUpperCase_char :: "char \<Rightarrow> char" where
  "toUpperCase_char c =
     (case map_of (zip lower_letters upper_letters) c of Some C \<Rightarrow> C | None \<Rightarrow> c)"

definition toUpperCase :: "string \<Rightarrow> string" where
  "toUpperCase str = map toUpperCase_char str"

definition slice :: "string \<Rightarrow> nat \<Rightarrow> nat \<Rightarrow> string" where
  "slice str i j = take (j - i) (drop i str)"

text \<open>
  \<^verbatim>\<open>utils.generateId\<close> is \<^verbatim>\<open>crypto.randomUUID()\<close>: 36 characters, lower-case
  hexadecimal digits with a hyphen at positions 8, 13, 18 and 23. The random value is a
  parameter of the operations that draw one.
\<close>

definition is_uuid :: "string \<Rightarrow> bool" where
  "is_uuid u = (length u = 36 \<and>
     list_all (\<lambda>i. if i \<in> set [8, 13, 18, 23] then u ! i = CHR ''-'' else is_hex_lower (u ! i))
       [0..<36])"

text \<open>The pattern \<^verbatim>\<open>^[A-Z0-9]{6}$\<close> of the specification.\<close>

definition matches_room_code :: "string \<Rightarrow> bool" where
  "matches_room_code str = (length str = 6 \<and> list_all (\<lambda>c. is_upper c \<or> is_digit c) str)"

section \<open>The event bus \<^verbatim>\<open>events\<close>\<close>

text \<open>
  \<^verbatim>\<open>events.listeners\<close> is a plain object from event names to a \<^verbatim>\<open>Set\<close> of callbacks.
  A callback is a function with an identity (the \<^verbatim>\<open>Set\<close> holds each function once);
  it runs on the data and on the rest of the program's state \<open>'w\<close>, and either returns or
  throws. Reading a name that is not an own property of a plain object falls through to
  \<^verbatim>\<open>Object.prototype\<close>, whose members are truthy and are not \<^verbatim>\<open>Set\<close>s.
  Callbacks do not subscribe or unsubscribe while a dispatch is running.
\<close>

type_synonym ('d, 'w) callback = "'d \<Rightarrow> 'w \<Rightarrow> 'w \<times> js_error option"

type_synonym ('d, 'w) listeners = "(string \<times> (nat \<times> ('d, 'w) callback) list) list"

definition Object_prototype_keys :: "string list" where
  "Object_prototype_keys =
     [''constructor'', ''__proto__'', ''hasOwnProperty'', ''isPrototypeOf'',
      ''propertyIsEnumerable'', ''toLocaleString'', ''toString'', ''valueOf'',
      ''__defineGetter__'', ''__defineSetter__'', ''__lookupGetter__'', ''__lookupSetter__'']"

definition Set_add :: "(nat \<times> 'f) list \<Rightarrow> nat \<times> 'f \<Rightarrow> (nat \<times> 'f) list" where
  "Set_add cs cb = (if fst cb \<in> set (map fst cs) then cs else cs @ [cb])"

definition Set_delete :: "(nat \<times> 'f) list \<Rightarrow> nat \<times> 'f \<Rightarrow> (nat \<times> 'f) list" where
  "Set_delete cs cb = filter (\<lambda>c. fst c \<noteq> fst cb) cs"

definition events_on ::
  "('d, 'w) listeners \<Rightarrow> string \<Rightarrow> nat \<times> ('d, 'w) callback \<Rightarrow> js_error + ('d, 'w) listeners" where
  "events_on ls event cb =
     (case map_of ls event of
        Some cs \<Rightarrow> Inr (Map_set ls event (Set_add cs cb))
      | None \<Rightarrow>
          if event \<in> set Object_prototype_keys then Inl TypeError
          else Inr (Map_set ls event (Set_add [] cb)))"

definition events_off ::
  "('d, 'w) listeners \<Rightarrow> string \<Rightarrow> nat \<times> ('d, 'w) callback \<Rightarrow> js_error + ('d, 'w) listeners" where
  "events_off ls event cb =
     (case map_of ls event of
        Some cs \<Rightarrow> Inr (Map_set ls event (Set_delete cs cb))
      | None \<Rightarrow>
          if event \<in> set Object_prototype_keys then Inl TypeError
          else Inr ls)"

text \<open>
  \<^verbatim>\<open>Set.prototype.forEach(callback => callback(data))\<close>: the callbacks run in insertion
  order; an exception thrown by one of them leaves \<^verbatim>\<open>forEach\<close> at once. The result is
  the list of callbacks that were invoked, the state they left, and the exception if any.
\<close>

fun forEach_invoke ::
  "(nat \<times> ('d, 'w) callback) list \<Rightarrow> 'd \<Rightarrow> 'w \<Rightarrow> nat list \<times> 'w \<times> js_error option" where
  "forEach_invoke [] d w = ([], w, None)"
| "forEach_invoke (cb # cs) d w =
     (case snd cb d w of
        (w', Some e) \<Rightarrow> ([fst cb], w', Some e)
      | (w', None) \<Rightarrow>
          (case forEach_invoke cs d w' of (called, w'', r) \<Rightarrow> (fst cb # called, w'', r)))"

definition events_emit ::
  "('d, 'w) listeners \<Rightarrow> string \<Rightarrow> 'd \<Rightarrow> 'w \<Rightarrow> nat list \<times> 'w \<times> js_error option" where
  "events_emit ls event d w =
     (case map_of ls event of
        Some cs \<Rightarrow> forEach_invoke cs d w
      | None \<Rightarrow>
          if event \<in> set Object_prototype_keys then ([], w, Some TypeError)
          else ([], w, None))"

text \<open>
  The state of the rest of the program once the subscribers \<open>cs\<close> have run on \<open>d\<close>, one
  after the other, from \<open>w\<close>.
\<close>

definition world_after :: "(nat \<times> ('d, 'w) callback) list \<Rightarrow> 'd \<Rightarrow> 'w \<Rightarrow> 'w" where
  "world_after cs d w = foldl (\<lambda>v c. fst (snd c d v)) w cs"

section \<open>The coordinator \<^verbatim>\<open>StudyRoom\<close>\<close>

text \<open>
  Objects of the transport carry an identity and the remote peer's id (\<^verbatim>\<open>call.peer\<close>,
  \<^verbatim>\<open>conn.peer\<close>); a media stream carries its tracks; \<^verbatim>\<open>new Peer(id, config)\<close> is the
  local transport identity.
\<close>

datatype media_call = MediaConnection (call_ref: nat) (call_peer: peer_id)

datatype data_conn = DataConnection (conn_ref: nat) (conn_peer: peer_id)

datatype media_stream = MediaStream (stream_ref: nat) (getTracks: "nat list")

datatype peer_obj = Peer (peer_ident: string)

record app_user =
  user_id :: string
  user_name :: string
  user_email :: string
  user_imageUrl :: string

text \<open>The events published on the bus, with their payloads.\<close>

datatype event =
    ChatMessage (msg_sender: jsval) (msg_content: jsval) (msg_timestamp: time)
  | PeerStream peer_id media_stream
  | PeerDisconnect peer_id
  | PeerConnect peer_id
  | MediaInitialized media_stream
  | ErrorEvent js_error string

fun event_name :: "event \<Rightarrow> string" where
  "event_name (ChatMessage s c t) = ''chat:message''"
| "event_name (PeerStream p st) = ''peer:stream''"
| "event_name (PeerDisconnect p) = ''peer:disconnect''"
| "event_name (PeerConnect p) = ''peer:connect''"
| "event_name (MediaInitialized st) = ''media:initialized''"
| "event_name (ErrorEvent e c) = ''error''"

text \<open>
  Everything the coordinator does to the outside is recorded, in program order, in a trace:
  calls of \<^verbatim>\<open>events.emit\<close> and calls into the transport and the media objects.
  Subscribers of the bus, and the methods of the transport and of the media objects other
  than \<^verbatim>\<open>call\<close> and \<^verbatim>\<open>connect\<close>, are taken to return normally.
\<close>

datatype effect =
    Emit event
  | Transport_call peer_id "media_stream option"
  | Transport_connect peer_id
  | Call_answer media_call "media_stream option"
  | Call_close media_call
  | Conn_send data_conn jsval
  | Track_stop nat
  | Peer_new string
  | Peer_destroy peer_obj
  | Host_showError

text \<open>The five fields of \<^verbatim>\<open>StudyRoom\<close>, and the trace.\<close>

record state =
  peers :: "(peer_id \<times> media_call) list"
  localStream :: "media_stream option"
  roomCode :: "string option"
  peer :: "peer_obj option"
  connections :: "(peer_id \<times> data_conn) list"
  trace :: "effect list"

definition initial :: state where
  "initial = \<lparr>peers = [], localStream = None, roomCode = None, peer = None,
               connections = [], trace = []\<rparr>"

definition perform :: "effect \<Rightarrow> state \<Rightarrow> state" where
  "perform e s = s\<lparr>trace := trace s @ [e]\<rparr>"

definition emit :: "event \<Rightarrow> state \<Rightarrow> state" where
  "emit ev s = perform (Emit ev) s"

text \<open>
  \<^verbatim>\<open>errorHandler.report\<close> is an arrow function of an object literal at the top level, so
  its \<^verbatim>\<open>this\<close> is the top-level \<^verbatim>\<open>this\<close> and not \<^verbatim>\<open>errorHandler\<close>. After emitting
  \<^verbatim>\<open>error\<close> it calls \<^verbatim>\<open>this.showError\<close>: that is a TypeError unless the host page
  defines a global function of that name. Whether it does is the parameter \<open>host\<close>.
\<close>

definition report :: "bool \<Rightarrow> js_error \<Rightarrow> string \<Rightarrow> state \<Rightarrow> state \<times> js_error option" where
  "report host err ctx s =
     (let s1 = emit (ErrorEvent err ctx) s
      in if host then (perform Host_showError s1, None) else (s1, Some TypeError))"

subsection \<open>Calls, connections and their callbacks\<close>

definition handleCall :: "state \<Rightarrow> media_call \<Rightarrow> state" where
  "handleCall s call = s\<lparr>peers := Map_set (peers s) (call_peer call) call\<rparr>"

definition on_call_stream :: "state \<Rightarrow> media_call \<Rightarrow> media_stream \<Rightarrow> state" where
  "on_call_stream s call remoteStream = emit (PeerStream (call_peer call) remoteStream) s"

definition on_call_close :: "state \<Rightarrow> media_call \<Rightarrow> state" where
  "on_call_close s call = emit (PeerDisconnect (call_peer call)) s"

definition handleConnection :: "state \<Rightarrow> data_conn \<Rightarrow> state" where
  "handleConnection s conn = s"

definition on_conn_open :: "state \<Rightarrow> data_conn \<Rightarrow> state" where
  "on_conn_open s conn =
     emit (PeerConnect (conn_peer conn))
       (s\<lparr>connections := Map_set (connections s) (conn_peer conn) conn\<rparr>)"

definition on_conn_close :: "state \<Rightarrow> data_conn \<Rightarrow> state" where
  "on_conn_close s conn =
     emit (PeerDisconnect (conn_peer conn))
       (s\<lparr>connections := Map_delete (connections s) (conn_peer conn)\<rparr>)"

text \<open>
  \<^verbatim>\<open>handlePeerMessage\<close>: a \<^verbatim>\<open>switch\<close> on \<^verbatim>\<open>message.type\<close> with the single case
  \<^verbatim>\<open>'chat'\<close> (strict equality) and no default. \<open>now\<close> is what \<^verbatim>\<open>new Date()\<close> reads
  from the local clock. \<open>Inl\<close> is an exception thrown before anything was changed.
\<close>

definition handlePeerMessage :: "state \<Rightarrow> peer_id \<Rightarrow> jsval \<Rightarrow> time \<Rightarrow> js_error + state" where
  "handlePeerMessage s peerId message now =
     (case get_prop message ''type'' of
        Inl e \<Rightarrow> Inl e
      | Inr t \<Rightarrow>
          if t = JStr ''chat'' then
            (case get_prop message ''sender'' of
               Inl e \<Rightarrow> Inl e
             | Inr sender \<Rightarrow>
                 (case get_prop message ''content'' of
                    Inl e \<Rightarrow> Inl e
                  | Inr content \<Rightarrow> Inr (emit (ChatMessage sender content now) s)))
          else Inr s)"

definition on_conn_data :: "state \<Rightarrow> data_conn \<Rightarrow> jsval \<Rightarrow> time \<Rightarrow> js_error + state" where
  "on_conn_data s conn d now = handlePeerMessage s (conn_peer conn) d now"

text \<open>
  What a method of the transport gives back to its caller: an object (here its identity),
  \<^verbatim>\<open>undefined\<close>, or an exception. PeerJS returns \<^verbatim>\<open>undefined\<close> from \<^verbatim>\<open>call\<close> and
  \<^verbatim>\<open>connect\<close> when the Peer has lost its server, and from \<^verbatim>\<open>call\<close> when it is given
  no stream. The \<^verbatim>\<open>error\<close> event a Peer emits once it is open, and what the handler
  left on it by \<^verbatim>\<open>initializePeer\<close> then reports, are not among the events modelled; an
  exception that comes out of the method on that way is the answer \<open>Throws\<close>.
\<close>

datatype 'a answer = Returns 'a | Returns_undefined | Throws js_error

text \<open>
  \<^verbatim>\<open>connectToPeer\<close>. \<open>call_answer\<close> and \<open>conn_answer\<close> are what \<^verbatim>\<open>this.peer.call\<close> and
  \<^verbatim>\<open>this.peer.connect\<close> give back; without a local stream \<^verbatim>\<open>call\<close> gives back
  \<^verbatim>\<open>undefined\<close> whatever else holds. \<^verbatim>\<open>this.peer.call\<close> on a \<^verbatim>\<open>null\<close> peer is a
  TypeError, and so are \<^verbatim>\<open>handleCall(undefined)\<close> and \<^verbatim>\<open>handleConnection(undefined)\<close>
  at their first \<^verbatim>\<open>.on\<close>. The result is the state at the point of return or throw,
  with the exception thrown if any.
\<close>

definition connectToPeer ::
  "state \<Rightarrow> peer_id \<Rightarrow> nat answer \<Rightarrow> nat answer \<Rightarrow> state \<times> js_error option" where
  "connectToPeer s peerId call_answer conn_answer =
     (case peer s of
        None \<Rightarrow> (s, Some TypeError)
      | Some p \<Rightarrow>
          (let s1 = perform (Transport_call peerId (localStream s)) s
           in case (if localStream s = None then Returns_undefined else call_answer) of
                Throws e \<Rightarrow> (s1, Some e)
              | Returns_undefined \<Rightarrow> (s1, Some TypeError)
              | Returns ref \<Rightarrow>
                  (let s2 = handleCall s1 (MediaConnection ref peerId);
                       s3 = perform (Transport_connect peerId) s2
                   in case conn_answer of
                        Throws e \<Rightarrow> (s3, Some e)
                      | Returns_undefined \<Rightarrow> (s3, Some TypeError)
                      | Returns ref' \<Rightarrow>
                          (handleConnection s3 (DataConnection ref' peerId), None))))"

text \<open>The two handlers \<^verbatim>\<open>setupPeerEvents\<close> registers on the local Peer object.\<close>

definition on_peer_call :: "state \<Rightarrow> media_call \<Rightarrow> state" where
  "on_peer_call s call = handleCall (perform (Call_answer call (localStream s)) s) call"

definition on_peer_connection :: "state \<Rightarrow> data_conn \<Rightarrow> state" where
  "on_peer_connection s conn = handleConnection s conn"

definition setupPeerEvents :: "state \<Rightarrow> state" where
  "setupPeerEvents s = s"

subsection \<open>Sending\<close>

text \<open>
  \<^verbatim>\<open>AppState.user?.name || 'Anonymous'\<close>: no user, or a user with an empty name, gives
  \<^verbatim>\<open>'Anonymous'\<close>.
\<close>

definition sender_name :: "app_user option \<Rightarrow> string" where
  "sender_name user =
     (case user of
        None \<Rightarrow> ''Anonymous''
      | Some u \<Rightarrow> if user_name u = [] then ''Anonymous'' else user_name u)"

definition chat_data :: "app_user option \<Rightarrow> string \<Rightarrow> jsval" where
  "chat_data user message =
     JObj [(''type'', JStr ''chat''), (''sender'', JStr (sender_name user)),
           (''content'', JStr message)]"

definition sendMessage :: "state \<Rightarrow> app_user option \<Rightarrow> string \<Rightarrow> time \<Rightarrow> state" where
  "sendMessage s user message now =
     (let d = chat_data user message;
          s1 = foldl (\<lambda>st conn. perform (Conn_send conn d) st) s (Map_values (connections s))
      in emit (ChatMessage (JStr (sender_name user)) (JStr message) now) s1)"

subsection \<open>Creating, joining and leaving a room\<close>

text \<open>
  An \<^verbatim>\<open>async\<close> method ends in a promise that is fulfilled, is rejected, or never settles.
  The outcomes of the awaited external operations are parameters: \<open>gum\<close> is the result of
  \<^verbatim>\<open>navigator.mediaDevices.getUserMedia\<close>, \<open>sig\<close> the first event of the new Peer object.
  No other callback is taken to run while the method is suspended.
\<close>

datatype 'a completion = Resolved 'a | Rejected js_error | Pending

datatype peer_signal = Peer_open string | Peer_error js_error

definition initializeMedia ::
  "bool \<Rightarrow> js_error + media_stream \<Rightarrow> state \<Rightarrow> state \<times> unit completion" where
  "initializeMedia host gum s =
     (case gum of
        Inr stream \<Rightarrow> (emit (MediaInitialized stream) (s\<lparr>localStream := Some stream\<rparr>), Resolved ())
      | Inl err \<Rightarrow>
          (case report host err ''media-initialization'' s of
             (s1, Some e) \<Rightarrow> (s1, Rejected e)
           | (s1, None) \<Rightarrow> (s1, Rejected (JsError ''Failed to access camera/microphone''))))"

text \<open>
  \<^verbatim>\<open>initializePeer\<close>: the promise is resolved in the \<^verbatim>\<open>open\<close> handler and rejected in
  the \<^verbatim>\<open>error\<close> handler after \<^verbatim>\<open>errorHandler.report\<close>; when \<^verbatim>\<open>report\<close> throws, the
  handler is left before \<^verbatim>\<open>reject\<close> and the promise stays pending.
\<close>

definition initializePeer ::
  "bool \<Rightarrow> string \<Rightarrow> peer_signal \<Rightarrow> state \<Rightarrow> state \<times> unit completion" where
  "initializePeer host uuid sig s =
     (let s1 = (case peer s of Some p \<Rightarrow> perform (Peer_destroy p) s | None \<Rightarrow> s);
          s2 = perform (Peer_new uuid) (s1\<lparr>peer := Some (Peer uuid)\<rparr>)
      in case sig of
           Peer_open ident \<Rightarrow> (setupPeerEvents s2, Resolved ())
         | Peer_error err \<Rightarrow>
             (case report host err ''peer-initialization'' s2 of
                (s3, Some e) \<Rightarrow> (s3, Pending)
              | (s3, None) \<Rightarrow> (s3, Rejected err)))"

definition createRoom ::
  "bool \<Rightarrow> string \<Rightarrow> js_error + media_stream \<Rightarrow> string \<Rightarrow> peer_signal \<Rightarrow> state
     \<Rightarrow> state \<times> string option completion" where
  "createRoom host uuid gum uuid' sig s =
     (let s1 = s\<lparr>roomCode := Some (toUpperCase (slice uuid 0 6))\<rparr>
      in case initializeMedia host gum s1 of
           (s2, Rejected e) \<Rightarrow> (s2, Rejected e)
         | (s2, Pending) \<Rightarrow> (s2, Pending)
         | (s2, Resolved u) \<Rightarrow>
             (case initializePeer host uuid' sig s2 of
                (s3, Rejected e) \<Rightarrow> (s3, Rejected e)
              | (s3, Pending) \<Rightarrow> (s3, Pending)
              | (s3, Resolved u') \<Rightarrow> (s3, Resolved (roomCode s3))))"

text \<open>
  \<^verbatim>\<open>getRoomPeers\<close> is a stub that returns the empty array; \<^verbatim>\<open>connectToRoom\<close> runs
  \<^verbatim>\<open>connectToPeer\<close> over what it returns, and an exception leaves the loop. A request is
  a peer id with the two answers of the transport; \<open>answers i\<close> are the answers to the
  \<open>i\<close>-th call of the loop.
\<close>

definition getRoomPeers :: "peer_id list" where
  "getRoomPeers = []"

fun connectToPeers ::
  "state \<Rightarrow> (peer_id \<times> nat answer \<times> nat answer) list \<Rightarrow> state \<times> js_error option" where
  "connectToPeers s [] = (s, None)"
| "connectToPeers s ((p, call_answer, conn_answer) # reqs) =
     (case connectToPeer s p call_answer conn_answer of
        (s', Some e) \<Rightarrow> (s', Some e)
      | (s', None) \<Rightarrow> connectToPeers s' reqs)"

definition connectToRoom ::
  "(nat \<Rightarrow> nat answer \<times> nat answer) \<Rightarrow> state \<Rightarrow> state \<times> unit completion" where
  "connectToRoom answers s =
     (case connectToPeers s (map (\<lambda>(i, p). (p, answers i)) (enumerate 0 getRoomPeers)) of
        (s', Some e) \<Rightarrow> (s', Rejected e)
      | (s', None) \<Rightarrow> (s', Resolved ()))"

definition joinRoom ::
  "bool \<Rightarrow> string \<Rightarrow> js_error + media_stream \<Rightarrow> string \<Rightarrow> peer_signal
     \<Rightarrow> (nat \<Rightarrow> nat answer \<times> nat answer) \<Rightarrow> state \<Rightarrow> state \<times> unit completion" where
  "joinRoom host code gum uuid' sig answers s =
     (let s1 = s\<lparr>roomCode := Some (toUpperCase code)\<rparr>
      in case initializeMedia host gum s1 of
           (s2, Rejected e) \<Rightarrow> (s2, Rejected e)
         | (s2, Pending) \<Rightarrow> (s2, Pending)
         | (s2, Resolved u) \<Rightarrow>
             (case initializePeer host uuid' sig s2 of
                (s3, Rejected e) \<Rightarrow> (s3, Rejected e)
              | (s3, Pending) \<Rightarrow> (s3, Pending)
              | (s3, Resolved u') \<Rightarrow> connectToRoom answers s3))"

definition stopMedia :: "state \<Rightarrow> state" where
  "stopMedia s =
     (let s1 = (case localStream s of
                  Some stream \<Rightarrow>
                    (foldl (\<lambda>st track. perform (Track_stop track) st) s (getTracks stream))
                      \<lparr>localStream := None\<rparr>
                | None \<Rightarrow> s);
          s2 = foldl (\<lambda>st call. perform (Call_close call) st) s1 (Map_values (peers s1));
          s3 = s2\<lparr>peers := [], connections := []\<rparr>
      in case peer s3 of
           Some p \<Rightarrow> (perform (Peer_destroy p) s3)\<lparr>peer := None\<rparr>
         | None \<Rightarrow> s3)"

text \<open>
  Leaving is the click handler of the leave button once the user has confirmed:
  \<^verbatim>\<open>await StudyRoom.stopMedia(); StudyRoom.roomCode = null;\<close>
\<close>

definition leaveRoom :: "state \<Rightarrow> state" where
  "leaveRoom s = (stopMedia s)\<lparr>roomCode := None\<rparr>"

text \<open>The session is idle when nothing is held: no stream, no peers, no identity, no code.\<close>

definition idle :: "state \<Rightarrow> bool" where
  "idle s = (peers s = [] \<and> localStream s = None \<and> roomCode s = None \<and> peer s = None
             \<and> connections s = [])"

subsection \<open>Events of the transport and runs of the coordinator\<close>

text \<open>
  The transport calls back on the objects that went through \<^verbatim>\<open>handleCall\<close> and
  \<^verbatim>\<open>handleConnection\<close>, and on the Peer object after \<^verbatim>\<open>setupPeerEvents\<close>. An exception
  in the \<^verbatim>\<open>data\<close> handler goes back to the transport and leaves the coordinator as it was.
\<close>

datatype transport_event =
    Incoming_call media_call
  | Incoming_connection data_conn
  | Call_stream media_call media_stream
  | Call_closed media_call
  | Conn_open data_conn
  | Conn_data data_conn jsval time
  | Conn_closed data_conn

fun deliver :: "state \<Rightarrow> transport_event \<Rightarrow> state" where
  "deliver s (Incoming_call call) = on_peer_call s call"
| "deliver s (Incoming_connection conn) = on_peer_connection s conn"
| "deliver s (Call_stream call remoteStream) = on_call_stream s call remoteStream"
| "deliver s (Call_closed call) = on_call_close s call"
| "deliver s (Conn_open conn) = on_conn_open s conn"
| "deliver s (Conn_data conn d now) =
     (case on_conn_data s conn d now of Inl e \<Rightarrow> s | Inr s' \<Rightarrow> s')"
| "deliver s (Conn_closed conn) = on_conn_close s conn"

definition deliver_all :: "state \<Rightarrow> transport_event list \<Rightarrow> state" where
  "deliver_all s evs = foldl deliver s evs"

text \<open>
  A run interleaves transport events with the commands of the user interface; a
  \<^verbatim>\<open>connectToPeer\<close> command comes with the transport's two answers. A command that
  throws leaves the coordinator in the state it had reached.
\<close>

datatype action =
    Transport transport_event
  | Cmd_connectToPeer peer_id "nat answer" "nat answer"
  | Cmd_sendMessage "app_user option" string time
  | Cmd_stopMedia

fun step :: "state \<Rightarrow> action \<Rightarrow> state" where
  "step s (Transport ev) = deliver s ev"
| "step s (Cmd_connectToPeer p call_answer conn_answer) =
     fst (connectToPeer s p call_answer conn_answer)"
| "step s (Cmd_sendMessage user message now) = sendMessage s user message now"
| "step s Cmd_stopMedia = stopMedia s"

definition run :: "state \<Rightarrow> action list \<Rightarrow> state" where
  "run s acts = foldl step s acts"

text \<open>
  The state of a data channel as the specification names it, read off the history of the
  transport's events alone: a channel is \<open>Open\<close> from its \<^verbatim>\<open>open\<close> event to its
  \<^verbatim>\<open>close\<close> event.
\<close>

datatype data_state = Opening | Open | Closed

definition dataState_step :: "data_conn \<Rightarrow> data_state \<Rightarrow> transport_event \<Rightarrow> data_state" where
  "dataState_step c st ev =
     (if ev = Conn_open c then Open else if ev = Conn_closed c then Closed else st)"

definition dataState :: "transport_event list \<Rightarrow> data_conn \<Rightarrow> data_state" where
  "dataState evs c = foldl (dataState_step c) Opening evs"

fun event_conns :: "transport_event list \<Rightarrow> data_conn list" where
  "event_conns [] = []"
| "event_conns (Conn_open c # evs) = c # event_conns evs"
| "event_conns (Conn_closed c # evs) = c # event_conns evs"
| "event_conns (ev # evs) = event_conns evs"

text \<open>
  The channel the history has left on file for a peer: the one opened last for it, unless
  a channel of that peer has closed since.
\<close>

definition latest_open_step :: "peer_id \<Rightarrow> data_conn option \<Rightarrow> transport_event \<Rightarrow> data_conn option" where
  "latest_open_step p r ev =
     (case ev of
        Conn_open c \<Rightarrow> if conn_peer c = p then Some c else r
      | Conn_closed c \<Rightarrow> if conn_peer c = p then None else r
      | _ \<Rightarrow> r)"

definition latest_open :: "transport_event list \<Rightarrow> peer_id \<Rightarrow> data_conn option" where
  "latest_open evs p = foldl (latest_open_step p) None evs"

text \<open>
  A history keeps the data channels of each peer apart in time when, at every \<^verbatim>\<open>open\<close>
  and \<^verbatim>\<open>close\<close> event of a channel, no other channel of the same peer is \<open>Open\<close>. A
  peer that reconnects after its channel has closed is within this; two channels to one
  peer that are open together (both sides dialled) are not. The history is given latest
  event first.
\<close>

fun channels_apart_rev :: "transport_event list \<Rightarrow> bool" where
  "channels_apart_rev [] = True"
| "channels_apart_rev (ev # past) =
     (channels_apart_rev past \<and>
      list_all (\<lambda>c. list_all (\<lambda>c'. \<not> (conn_peer c' = conn_peer c \<and> c' \<noteq> c
                                      \<and> dataState (rev past) c' = Open))
                         (event_conns (rev past)))
        (event_conns [ev]))"

definition channels_apart :: "transport_event list \<Rightarrow> bool" where
  "channels_apart evs = channels_apart_rev (rev evs)"

definition send_targets :: "effect list \<Rightarrow> data_conn list" where
  "send_targets tr = concat (map (\<lambda>e. case e of Conn_send c d \<Rightarrow> [c] | _ \<Rightarrow> []) tr)"

definition emitted :: "effect list \<Rightarrow> event list" where
  "emitted tr = concat (map (\<lambda>e. case e of Emit ev \<Rightarrow> [ev] | _ \<Rightarrow> []) tr)"

text \<open>Requests all of which the transport grants: it hands out the call and the connection.\<close>

datatype grant = Grant (grant_peer: peer_id) (grant_call: nat) (grant_conn: nat)

definition granted :: "grant list \<Rightarrow> (peer_id \<times> nat answer \<times> nat answer) list" where
  "granted reqs = map (\<lambda>g. (grant_peer g, Returns (grant_call g), Returns (grant_conn g))) reqs"

text \<open>The effects performed between a state and a later one.\<close>

definition new_effects :: "state \<Rightarrow> state \<Rightarrow> effect list" where
  "new_effects s s' = drop (length (trace s)) (trace s')"

subsection \<open>Concrete subscribers, states and connections used in the examples\<close>

definition throwing_cb :: "(unit, nat) callback" where
  "throwing_cb d w = (w, Some (JsError ''subscriber failed''))"

definition counting_cb :: "(unit, nat) callback" where
  "counting_cb d w = (Suc w, None)"

definition active0 :: state where
  "active0 = \<lparr>peers = [], localStream = Some (MediaStream 0 [0, 1]), roomCode = Some ''3F2A9C'',
               peer = Some (Peer ''0b1c2d3e-4f50-4a6b-8c7d-9e0f1a2b3c4d''),
               connections = [], trace = []\<rparr>"

definition no_answers :: "nat \<Rightarrow> nat answer \<times> nat answer" where
  "no_answers i = (Returns_undefined, Returns_undefined)"

definition bob_conn :: data_conn where
  "bob_conn = DataConnection 1 ''bob''"

definition bob_conn2 :: data_conn where
  "bob_conn2 = DataConnection 9 ''bob''"

definition cat_conn :: data_conn where
  "cat_conn = DataConnection 3 ''cat''"

definition dan_conn :: data_conn where
  "dan_conn = DataConnection 5 ''dan''"

section \<open>Facts about the containers and the trace\<close>

lemma Map_set_keys: "fst ` set (Map_set m k v) = insert k (fst ` set m)"
  by (induction m) force+

lemma Map_set_distinct: "distinct (map fst m) \<Longrightarrow> distinct (map fst (Map_set m k v))"
  by (induction m) (auto simp: Map_set_keys)

lemma Map_set_subset: "set (Map_set m k v) \<subseteq> insert (k, v) (set m)"
  by (induction m) (auto split: if_splits)

lemma Map_set_entries:
  "distinct (map fst m) \<Longrightarrow> set (Map_set m k v) = insert (k, v) {e \<in> set m. fst e \<noteq> k}"
proof (induction m)
  case Nil
  then show ?case by simp
next
  case (Cons e m)
  obtain k' v' where e: "e = (k', v')" by (cases e)
  show ?case
  proof (cases "k' = k")
    case True
    then have "k \<notin> fst ` set m" using Cons.prems e by simp
    then have "\<And>x. x \<in> set m \<Longrightarrow> fst x \<noteq> k" by auto
    then show ?thesis using True e by auto
  next
    case False
    then show ?thesis using Cons e by auto
  qed
qed

lemma Map_set_lookup: "map_of (Map_set m k v) = (map_of m)(k \<mapsto> v)"
  by (induction m) auto

lemma Map_delete_map_of: "map_of (Map_delete m k) = (map_of m)(k := None)"
  by (induction m) (auto simp: Map_delete_def)

lemma Map_delete_entries: "set (Map_delete m k) = {e \<in> set m. fst e \<noteq> k}"
  by (auto simp: Map_delete_def)

lemma Map_delete_distinct: "distinct (map fst m) \<Longrightarrow> distinct (map fst (Map_delete m k))"
  by (simp add: Map_delete_def distinct_map_filter)

lemma Map_delete_lookup: "map_of (Map_delete m k) k = None"
  by (induction m) (auto simp: Map_delete_def)

lemma distinct_values:
  assumes "distinct (map fst m)" and "\<forall>e \<in> set m. fst e = f (snd e)"
  shows "distinct (map snd m)"
proof -
  have "map fst m = map f (map snd m)" using assms(2) by (induction m) auto
  with assms(1) show ?thesis by (metis distinct_map)
qed

lemma foldl_perform:
  "foldl (\<lambda>st x. perform (f x) st) s xs = s\<lparr>trace := trace s @ map f xs\<rparr>"
  by (induction xs arbitrary: s) (simp_all add: perform_def)

lemma send_targets_sends: "send_targets (map (\<lambda>c. Conn_send c d) cs @ [Emit ev]) = cs"
  by (induction cs) (simp_all add: send_targets_def)

lemma emitted_sends: "emitted (map (\<lambda>c. Conn_send c d) cs @ [Emit ev]) = [ev]"
  by (induction cs) (simp_all add: emitted_def)

section \<open>What each operation does to the fields\<close>

lemma stopMedia_clears:
  "peers (stopMedia s) = [] \<and> connections (stopMedia s) = [] \<and> localStream (stopMedia s) = None
   \<and> peer (stopMedia s) = None"
  by (simp add: stopMedia_def Let_def foldl_perform split: option.splits) (simp add: perform_def)

lemma connectToPeer_Returns:
  "peer s = Some p \<Longrightarrow> localStream s \<noteq> None \<Longrightarrow>
   connectToPeer s q (Returns r) (Returns r') =
     (s\<lparr>peers := Map_set (peers s) q (MediaConnection r q),
        trace := trace s @ [Transport_call q (localStream s), Transport_connect q]\<rparr>, None)"
  by (simp add: connectToPeer_def Let_def perform_def handleCall_def handleConnection_def)

lemma connectToPeer_connections:
  "connections (fst (connectToPeer s q a b)) = connections s"
  by (simp add: connectToPeer_def Let_def perform_def handleCall_def handleConnection_def
        split: option.splits answer.splits)

lemma connectToPeer_peers:
  "peers (fst (connectToPeer s q a b)) = peers s
   \<or> (\<exists>r. peers (fst (connectToPeer s q a b)) = Map_set (peers s) q (MediaConnection r q))"
  by (auto simp: connectToPeer_def Let_def perform_def handleCall_def handleConnection_def
        split: option.splits answer.splits)

lemma handlePeerMessage_fields:
  "handlePeerMessage s p m t = Inr s' \<Longrightarrow>
     peers s' = peers s \<and> connections s' = connections s \<and> localStream s' = localStream s
     \<and> peer s' = peer s \<and> roomCode s' = roomCode s"
  by (auto simp: handlePeerMessage_def emit_def perform_def split: sum.splits if_splits)

lemma deliver_peers:
  "peers (deliver s ev) =
     (case ev of Incoming_call call \<Rightarrow> Map_set (peers s) (call_peer call) call | _ \<Rightarrow> peers s)"
  by (cases ev)
     (auto simp: on_peer_call_def on_peer_connection_def on_call_stream_def
        on_call_close_def on_conn_open_def on_conn_close_def on_conn_data_def handleCall_def
        handleConnection_def emit_def perform_def
        dest: handlePeerMessage_fields split: sum.splits)

lemma deliver_connections:
  "connections (deliver s ev) =
     (case ev of Conn_open c \<Rightarrow> Map_set (connections s) (conn_peer c) c
               | Conn_closed c \<Rightarrow> Map_delete (connections s) (conn_peer c)
               | _ \<Rightarrow> connections s)"
  by (cases ev)
     (auto simp: on_peer_call_def on_peer_connection_def on_call_stream_def
        on_call_close_def on_conn_open_def on_conn_close_def on_conn_data_def handleCall_def
        handleConnection_def emit_def perform_def
        dest: handlePeerMessage_fields split: sum.splits)

lemma sendMessage_fields:
  "peers (sendMessage s u m t) = peers s \<and> connections (sendMessage s u m t) = connections s
   \<and> localStream (sendMessage s u m t) = localStream s \<and> peer (sendMessage s u m t) = peer s
   \<and> roomCode (sendMessage s u m t) = roomCode s"
  unfolding sendMessage_def Let_def foldl_perform by (simp add: emit_def perform_def)

lemma sendMessage_trace:
  "trace (sendMessage s user message now) =
     trace s @ map (\<lambda>c. Conn_send c (chat_data user message)) (Map_values (connections s))
       @ [Emit (ChatMessage (JStr (sender_name user)) (JStr message) now)]"
  unfolding sendMessage_def Let_def foldl_perform by (simp add: emit_def perform_def)

lemma initializeMedia_roomCode: "roomCode (fst (initializeMedia host gum s)) = roomCode s"
  by (simp add: initializeMedia_def report_def emit_def perform_def Let_def split: sum.splits)

lemma initializePeer_roomCode: "roomCode (fst (initializePeer host uuid sig s)) = roomCode s"
  by (simp add: initializePeer_def report_def emit_def perform_def Let_def setupPeerEvents_def
        split: option.splits peer_signal.splits)

lemma connectToRoom_state: "fst (connectToRoom answers s) = s"
  by (simp add: connectToRoom_def getRoomPeers_def)

lemma run_snoc: "run s (acts @ [a]) = step (run s acts) a"
  by (simp add: run_def)

lemma deliver_all_snoc: "deliver_all s (evs @ [e]) = deliver (deliver_all s evs) e"
  by (simp add: deliver_all_def)

section \<open>Teardown\<close>

text \<open>
  C6. After teardown the registry is empty and the local stream is released, whatever the
  state before: both \<^verbatim>\<open>stopMedia\<close> and the leave handler built on it end with an empty
  \<^verbatim>\<open>peers\<close> map, an empty \<^verbatim>\<open>connections\<close> map and \<^verbatim>\<open>localStream = null\<close>; the
  handler also drops the transport identity and the room code.
\<close>

theorem teardown_clears:
  "peers (stopMedia s) = [] \<and> connections (stopMedia s) = [] \<and> localStream (stopMedia s) = None
   \<and> peers (leaveRoom s) = [] \<and> connections (leaveRoom s) = [] \<and> localStream (leaveRoom s) = None
   \<and> peer (leaveRoom s) = None \<and> roomCode (leaveRoom s) = None"
  using stopMedia_clears[of s] by (simp add: leaveRoom_def)

text \<open>
  C7. Leaving while idle changes nothing: when no stream, peer, connection, identity or room
  code is held, \<^verbatim>\<open>stopMedia\<close> and the leave handler return normally with the state they
  were given. The trace is part of the state, so nothing is emitted and nothing is called.
\<close>

theorem leaveRoom_idle_noop:
  assumes "idle s"
  shows "leaveRoom s = s \<and> stopMedia s = s"
  using assms by (simp add: idle_def leaveRoom_def stopMedia_def Let_def Map_values_def)

text \<open>The initial state is idle, and leaving it emits nothing.\<close>

theorem leaveRoom_idle_noop_witness:
  "idle initial \<and> leaveRoom initial = initial \<and> stopMedia initial = initial
   \<and> trace (leaveRoom initial) = []"
proof -
  have h: "idle initial" by (simp add: idle_def initial_def)
  from leaveRoom_idle_noop[OF h] h show ?thesis by (simp add: initial_def)
qed

section \<open>Inbound dispatch\<close>

text \<open>
  C8. \<^verbatim>\<open>handlePeerMessage\<close> classifies a payload by its \<^verbatim>\<open>type\<close>. A payload other than
  \<^verbatim>\<open>null\<close> and \<^verbatim>\<open>undefined\<close> whose \<^verbatim>\<open>type\<close> is not the string \<^verbatim>\<open>'chat'\<close> is ignored:
  the state, trace included, is returned as it was. A \<^verbatim>\<open>'chat'\<close> payload adds exactly one
  \<^verbatim>\<open>chat:message\<close> event that carries the payload's \<^verbatim>\<open>sender\<close> and \<^verbatim>\<open>content\<close> and the
  receiver's clock reading \<open>now\<close>, whatever time the payload itself may carry.
\<close>

theorem handlePeerMessage_dispatch:
  assumes "message \<noteq> JNull" and "message \<noteq> JUndefined"
  shows "handlePeerMessage s p message now =
           Inr (if projr (get_prop message ''type'') = JStr ''chat''
                then s\<lparr>trace := trace s @ [Emit (ChatMessage (projr (get_prop message ''sender''))
                                               (projr (get_prop message ''content'')) now)]\<rparr>
                else s)"
  using assms by (cases message) (auto simp: handlePeerMessage_def emit_def perform_def)

text \<open>
  A chat payload stamped 5 by its sender and received at 1000 is republished with 1000;
  a payload of an unknown type leaves the state alone.
\<close>

theorem handlePeerMessage_dispatch_witness:
  "JObj [(''type'', JStr ''chat''), (''sender'', JStr ''Ann''), (''content'', JStr ''hello''),
         (''timestamp'', JNum 5)] \<noteq> JNull
   \<and> JObj [(''type'', JStr ''chat''), (''sender'', JStr ''Ann''), (''content'', JStr ''hello''),
         (''timestamp'', JNum 5)] \<noteq> JUndefined
   \<and> handlePeerMessage initial ''bob''
        (JObj [(''type'', JStr ''chat''), (''sender'', JStr ''Ann''), (''content'', JStr ''hello''),
               (''timestamp'', JNum 5)]) 1000
       = Inr (initial\<lparr>trace := [Emit (ChatMessage (JStr ''Ann'') (JStr ''hello'') 1000)]\<rparr>)
   \<and> handlePeerMessage initial ''bob'' (JObj [(''type'', JStr ''typing'')]) 1000 = Inr initial"
  using handlePeerMessage_dispatch[of "JObj [(''type'', JStr ''chat''), (''sender'', JStr ''Ann''),
      (''content'', JStr ''hello''), (''timestamp'', JNum 5)]" initial "''bob''" 1000]
    handlePeerMessage_dispatch[of "JObj [(''type'', JStr ''typing'')]" initial "''bob''" 1000]
  by (simp add: initial_def)

section \<open>Connecting to peers\<close>

lemma connectToPeers_granted:
  "peer s \<noteq> None \<Longrightarrow> localStream s \<noteq> None \<Longrightarrow>
   connectToPeers s (granted reqs) =
     (s\<lparr>peers := foldl (\<lambda>m g. Map_set m (grant_peer g) (MediaConnection (grant_call g) (grant_peer g))) (peers s) reqs,
        trace := trace s @ concat (map (\<lambda>g. [Transport_call (grant_peer g) (localStream s),
                                               Transport_connect (grant_peer g)]) reqs)\<rparr>, None)"
proof (induction reqs arbitrary: s)
  case Nil
  then show ?case by (simp add: granted_def)
next
  case (Cons req reqs)
  obtain q r r' where req: "req = Grant q r r'" by (cases req)
  from Cons.prems obtain p where p: "peer s = Some p" by auto
  let ?s1 = "s\<lparr>peers := Map_set (peers s) q (MediaConnection r q),
               trace := trace s @ [Transport_call q (localStream s), Transport_connect q]\<rparr>"
  have c: "connectToPeer s q (Returns r) (Returns r') = (?s1, None)"
    using p Cons.prems(2) by (rule connectToPeer_Returns)
  have "peer ?s1 \<noteq> None" "localStream ?s1 \<noteq> None" using Cons.prems by simp_all
  from Cons.IH[OF this] have "connectToPeers ?s1 (granted reqs) =
     (?s1\<lparr>peers := foldl (\<lambda>m g. Map_set m (grant_peer g) (MediaConnection (grant_call g) (grant_peer g))) (peers ?s1) reqs,
        trace := trace ?s1 @ concat (map (\<lambda>g. [Transport_call (grant_peer g) (localStream ?s1),
                                               Transport_connect (grant_peer g)]) reqs)\<rparr>, None)" .
  moreover have "connectToPeers s (granted (req # reqs)) = connectToPeers ?s1 (granted reqs)"
    using c req by (simp add: granted_def)
  ultimately show ?case using req by simp
qed

lemma foldl_Map_set_lookup:
  "map_of (foldl (\<lambda>m g. Map_set m (k g) (f g)) m0 reqs)
     = foldl (\<lambda>m g. m(k g \<mapsto> f g)) (map_of m0) reqs"
  by (induction reqs arbitrary: m0) (auto simp: Map_set_lookup)

lemma foldl_Map_set_distinct:
  "distinct (map fst m0) \<Longrightarrow>
   distinct (map fst (foldl (\<lambda>m g. Map_set m (k g) (f g)) m0 reqs))"
  by (induction reqs arbitrary: m0) (auto simp: Map_set_distinct)

lemma deliver_distinct:
  "distinct (Map_keys (peers s)) \<Longrightarrow> distinct (Map_keys (connections s)) \<Longrightarrow>
   distinct (Map_keys (peers (deliver s ev))) \<and> distinct (Map_keys (connections (deliver s ev)))"
  by (simp add: deliver_peers deliver_connections Map_keys_def Map_set_distinct
        Map_delete_distinct split: transport_event.splits)

lemma step_distinct:
  "distinct (Map_keys (peers s)) \<Longrightarrow> distinct (Map_keys (connections s)) \<Longrightarrow>
   distinct (Map_keys (peers (step s a))) \<and> distinct (Map_keys (connections (step s a)))"
proof (cases a)
  case (Transport ev)
  assume "distinct (Map_keys (peers s))" "distinct (Map_keys (connections s))"
  then show ?thesis using Transport deliver_distinct by simp
next
  case (Cmd_connectToPeer q a1 a2)
  assume d: "distinct (Map_keys (peers s))" "distinct (Map_keys (connections s))"
  from connectToPeer_peers[of s q a1 a2] d(1)
  have "distinct (Map_keys (peers (fst (connectToPeer s q a1 a2))))"
    by (auto simp: Map_keys_def Map_set_distinct)
  then show ?thesis using Cmd_connectToPeer d(2) by (simp add: connectToPeer_connections)
next
  case (Cmd_sendMessage u m t)
  assume "distinct (Map_keys (peers s))" "distinct (Map_keys (connections s))"
  then show ?thesis using Cmd_sendMessage by (simp add: sendMessage_fields)
next
  case Cmd_stopMedia
  then show ?thesis by (simp add: stopMedia_clears Map_keys_def)
qed

lemma run_distinct:
  "distinct (Map_keys (peers s)) \<Longrightarrow> distinct (Map_keys (connections s)) \<Longrightarrow>
   distinct (Map_keys (peers (run s acts))) \<and> distinct (Map_keys (connections (run s acts)))"
  unfolding run_def
  by (induction acts arbitrary: s) (simp_all add: step_distinct)

text \<open>
  C1, as the code has it. \<^verbatim>\<open>connectToPeer\<close> has no guard. With a transport identity
  and a local stream in place, and a transport that grants the requests, every call of a
  sequence \<open>reqs\<close> of \<^verbatim>\<open>connectToPeer\<close> calls returns normally, initiates one media call
  and one data connection, also for a peer id that already has a record, and binds
  \<^verbatim>\<open>peers[peerId]\<close> to the call just handed out: after the sequence each peer id of
  \<open>reqs\<close> is bound to the call of its last request and every other binding is as before;
  \<^verbatim>\<open>connections\<close> is untouched. The registry holds at most one record per peer id: the
  keys of \<^verbatim>\<open>peers\<close> and of \<^verbatim>\<open>connections\<close> are pairwise distinct after the sequence and
  after any run \<open>acts\<close> of commands and transport events, granted or not.
\<close>

theorem connectToPeer_registry:
  assumes "peer s \<noteq> None" and "localStream s \<noteq> None"
    and "distinct (Map_keys (peers s))" and "distinct (Map_keys (connections s))"
  shows "snd (connectToPeers s (granted reqs)) = None
       \<and> new_effects s (fst (connectToPeers s (granted reqs)))
           = concat (map (\<lambda>g. [Transport_call (grant_peer g) (localStream s),
                                  Transport_connect (grant_peer g)]) reqs)
       \<and> Map_get (peers (fst (connectToPeers s (granted reqs))))
           = foldl (\<lambda>m g. m(grant_peer g \<mapsto> MediaConnection (grant_call g) (grant_peer g))) (Map_get (peers s)) reqs
       \<and> Map_get (peers (fst (connectToPeer s q (Returns c1) (Returns c2)))) q
           = Some (MediaConnection c1 q)
       \<and> connections (fst (connectToPeers s (granted reqs))) = connections s
       \<and> distinct (Map_keys (peers (fst (connectToPeers s (granted reqs)))))
       \<and> distinct (Map_keys (connections (fst (connectToPeers s (granted reqs)))))
       \<and> distinct (Map_keys (peers (run s acts)))
       \<and> distinct (Map_keys (connections (run s acts)))"
proof -
  note g = connectToPeers_granted[OF assms(1,2), of reqs]
  have mg: "Map_get m = map_of m" for m :: "(peer_id \<times> media_call) list"
    by (rule ext) (simp add: Map_get_def)
  have 1: "snd (connectToPeers s (granted reqs)) = None" using g by simp
  have 2: "new_effects s (fst (connectToPeers s (granted reqs)))
           = concat (map (\<lambda>g. [Transport_call (grant_peer g) (localStream s),
                                  Transport_connect (grant_peer g)]) reqs)"
    using g by (simp add: new_effects_def)
  have 3: "Map_get (peers (fst (connectToPeers s (granted reqs))))
           = foldl (\<lambda>m g. m(grant_peer g \<mapsto> MediaConnection (grant_call g) (grant_peer g))) (Map_get (peers s)) reqs"
    using g foldl_Map_set_lookup[of grant_peer "\<lambda>g. MediaConnection (grant_call g) (grant_peer g)"
        "peers s" reqs]
    by (simp add: mg)
  from assms(1) obtain p where "peer s = Some p" by auto
  from connectToPeer_Returns[OF this assms(2), of q c1 c2]
  have 4: "Map_get (peers (fst (connectToPeer s q (Returns c1) (Returns c2)))) q
           = Some (MediaConnection c1 q)"
    by (simp add: Map_get_def Map_set_lookup)
  have 5: "connections (fst (connectToPeers s (granted reqs))) = connections s" using g by simp
  have 6: "distinct (Map_keys (peers (fst (connectToPeers s (granted reqs)))))"
    using g assms(3) foldl_Map_set_distinct[of "peers s" grant_peer
        "\<lambda>g. MediaConnection (grant_call g) (grant_peer g)" reqs]
    by (simp add: Map_keys_def)
  note 7 = run_distinct[OF assms(3,4), of acts]
  show ?thesis using 1 2 3 4 5 6 7 assms(4) by simp
qed

text \<open>
  Two granted calls for the same peer from an active state: four transport requests, one
  key, bound to the call of the second request.
\<close>

theorem connectToPeer_registry_witness:
  "peer active0 \<noteq> None \<and> localStream active0 \<noteq> None
   \<and> distinct (Map_keys (peers active0)) \<and> distinct (Map_keys (connections active0))
   \<and> snd (connectToPeers active0 (granted [Grant ''bob'' 0 1, Grant ''bob'' 2 3])) = None
   \<and> new_effects active0 (fst (connectToPeers active0 (granted [Grant ''bob'' 0 1, Grant ''bob'' 2 3])))
        = [Transport_call ''bob'' (localStream active0), Transport_connect ''bob'',
           Transport_call ''bob'' (localStream active0), Transport_connect ''bob'']
   \<and> Map_get (peers (fst (connectToPeers active0 (granted [Grant ''bob'' 0 1, Grant ''bob'' 2 3])))) ''bob''
        = Some (MediaConnection 2 ''bob'')
   \<and> Map_get (peers (fst (connectToPeers active0 (granted [Grant ''bob'' 0 1, Grant ''bob'' 2 3])))) ''cat''
        = None"
proof -
  have h: "peer active0 \<noteq> None" "localStream active0 \<noteq> None"
    "distinct (Map_keys (peers active0))" "distinct (Map_keys (connections active0))"
    by (simp_all add: active0_def Map_keys_def)
  have e: "Map_get (peers active0) = Map.empty"
    by (rule ext) (simp add: Map_get_def active0_def)
  note t = connectToPeer_registry[OF h, of "[Grant ''bob'' 0 1, Grant ''bob'' 2 3]" "''bob''" 0 1 "[]"]
  from t have 1: "snd (connectToPeers active0 (granted [Grant ''bob'' 0 1, Grant ''bob'' 2 3])) = None"
    by (rule conjunct1)
  from t have 2: "new_effects active0 (fst (connectToPeers active0 (granted [Grant ''bob'' 0 1, Grant ''bob'' 2 3])))
        = [Transport_call ''bob'' (localStream active0), Transport_connect ''bob'',
           Transport_call ''bob'' (localStream active0), Transport_connect ''bob'']"
    by simp
  from t have 3: "Map_get (peers (fst (connectToPeers active0 (granted [Grant ''bob'' 0 1, Grant ''bob'' 2 3]))))
        = [''bob'' \<mapsto> MediaConnection 2 ''bob'']"
    unfolding e by simp
  show ?thesis using h 1 2 unfolding 3 by simp
qed

text \<open>
  C1 as stated fails. After a granted \<^verbatim>\<open>connectToPeer('bob')\<close> the registry holds a
  record for \<^verbatim>\<open>bob\<close> whose call has not closed; a second \<^verbatim>\<open>connectToPeer('bob')\<close> is
  not a no-op: it asks the transport for another media call and another data connection
  and rebinds \<^verbatim>\<open>peers['bob']\<close> to the new call.
\<close>

theorem connectToPeer_repeat_counterexample:
  "connectToPeer active0 ''bob'' (Returns 0) (Returns 1) =
     (active0\<lparr>peers := [(''bob'', MediaConnection 0 ''bob'')],
              trace := [Transport_call ''bob'' (Some (MediaStream 0 [0, 1])), Transport_connect ''bob'']\<rparr>,
      None)
   \<and> connectToPeer
        (active0\<lparr>peers := [(''bob'', MediaConnection 0 ''bob'')],
                 trace := [Transport_call ''bob'' (Some (MediaStream 0 [0, 1])), Transport_connect ''bob'']\<rparr>)
        ''bob'' (Returns 2) (Returns 3) =
     (active0\<lparr>peers := [(''bob'', MediaConnection 2 ''bob'')],
              trace := [Transport_call ''bob'' (Some (MediaStream 0 [0, 1])), Transport_connect ''bob'',
                        Transport_call ''bob'' (Some (MediaStream 0 [0, 1])), Transport_connect ''bob'']\<rparr>,
      None)"
  by (simp add: active0_def connectToPeer_def Let_def perform_def handleCall_def handleConnection_def)

section \<open>Dispatch on the event bus\<close>

lemma world_after_Cons: "world_after (c # cs) d w = world_after cs d (fst (snd c d w))"
  by (simp add: world_after_def)

lemma forEach_invoke_normal:
  "\<forall>i<length pre. snd (snd (pre ! i) d (world_after (take i pre) d w)) = None \<Longrightarrow>
   forEach_invoke (pre @ rest) d w =
     (case forEach_invoke rest d (world_after pre d w) of
        (called, w', r) \<Rightarrow> (map fst pre @ called, w', r))"
proof (induction pre arbitrary: w)
  case Nil
  then show ?case by (simp add: world_after_def)
next
  case (Cons c pre)
  from Cons.prems[rule_format, of 0]
  have "snd (snd c d (world_after (take 0 (c # pre)) d w)) = None" by simp
  then have c0: "snd c d w = (fst (snd c d w), None)"
    by (simp add: world_after_def prod_eq_iff)
  have "\<forall>i<length pre. snd (snd (pre ! i) d (world_after (take i pre) d (fst (snd c d w)))) = None"
  proof (intro allI impI)
    fix i assume "i < length pre"
    then have "Suc i < length (c # pre)" by simp
    from Cons.prems[rule_format, OF this]
    have "snd (snd ((c # pre) ! Suc i) d (world_after (take (Suc i) (c # pre)) d w)) = None" .
    then show "snd (snd (pre ! i) d (world_after (take i pre) d (fst (snd c d w)))) = None"
      by (simp add: world_after_Cons)
  qed
  from Cons.IH[OF this] show ?case
    by (subst append_Cons, subst forEach_invoke.simps, subst c0)
       (simp add: world_after_Cons split: prod.splits)
qed

text \<open>
  C2, as the code has it. \<^verbatim>\<open>events.emit\<close> has no \<^verbatim>\<open>try\<close>. Let the subscribers of an
  event be registered in the order \<open>pre\<close>, \<open>cb\<close>, \<open>post\<close>, let each subscriber of \<open>pre\<close>
  return normally when its turn comes, and let \<open>cb\<close> throw \<open>e\<close>. Then \<^verbatim>\<open>emit\<close> invokes
  \<open>pre\<close> and \<open>cb\<close> in that order and nothing else: no subscriber of \<open>post\<close> runs, the
  state is the one \<open>cb\<close> left, and \<open>e\<close> comes out of \<^verbatim>\<open>emit\<close>. When every subscriber
  \<open>cs\<close> of an event returns normally in its turn, \<^verbatim>\<open>emit\<close> invokes all of them once,
  in registration order, and returns normally.
\<close>

theorem events_emit_first_throw:
  "(map_of ls event = Some (pre @ cb # post)
      \<and> (\<forall>i<length pre. snd (snd (pre ! i) d (world_after (take i pre) d w)) = None)
      \<and> snd cb d (world_after pre d w) = (w2, Some e)
     \<longrightarrow> events_emit ls event d w = (map fst pre @ [fst cb], w2, Some e))
   \<and> (map_of ls' event' = Some cs
      \<and> (\<forall>i<length cs. snd (snd (cs ! i) d' (world_after (take i cs) d' w')) = None)
     \<longrightarrow> events_emit ls' event' d' w' = (map fst cs, world_after cs d' w', None))"
proof (intro conjI impI)
  assume a: "map_of ls event = Some (pre @ cb # post)
      \<and> (\<forall>i<length pre. snd (snd (pre ! i) d (world_after (take i pre) d w)) = None)
      \<and> snd cb d (world_after pre d w) = (w2, Some e)"
  then have "\<forall>i<length pre. snd (snd (pre ! i) d (world_after (take i pre) d w)) = None"
    by (rule conjunct1[OF conjunct2])
  then have "forEach_invoke (pre @ cb # post) d w =
     (case forEach_invoke (cb # post) d (world_after pre d w) of
        (called, w', r) \<Rightarrow> (map fst pre @ called, w', r))"
    by (rule forEach_invoke_normal)
  moreover have "forEach_invoke (cb # post) d (world_after pre d w) = ([fst cb], w2, Some e)"
    using a by simp
  ultimately show "events_emit ls event d w = (map fst pre @ [fst cb], w2, Some e)"
    using a by (simp add: events_emit_def)
next
  assume a: "map_of ls' event' = Some cs
      \<and> (\<forall>i<length cs. snd (snd (cs ! i) d' (world_after (take i cs) d' w')) = None)"
  then have "\<forall>i<length cs. snd (snd (cs ! i) d' (world_after (take i cs) d' w')) = None"
    by (rule conjunct2)
  then have "forEach_invoke (cs @ []) d' w' =
     (case forEach_invoke [] d' (world_after cs d' w') of
        (called, w'', r) \<Rightarrow> (map fst cs @ called, w'', r))"
    by (rule forEach_invoke_normal)
  then show "events_emit ls' event' d' w' = (map fst cs, world_after cs d' w', None)"
    using a by (simp add: events_emit_def)
qed

text \<open>
  Three subscribers, the second of which throws: the first two are invoked, the third is
  not, and the exception leaves \<^verbatim>\<open>emit\<close>. Two subscribers that return: both are invoked.
\<close>

theorem events_emit_first_throw_witness:
  "events_emit [(''chat:message'', [(1, counting_cb), (0, throwing_cb), (2, counting_cb)])]
        ''chat:message'' () 0 = ([1, 0], 1, Some (JsError ''subscriber failed''))
   \<and> events_emit [(''chat:message'', [(1, counting_cb), (2, counting_cb)])]
        ''chat:message'' () 0 = ([1, 2], 2, None)"
proof -
  have h1: "map_of [(''chat:message'', [(1, counting_cb), (0, throwing_cb), (2, counting_cb)])] ''chat:message''
     = Some ([(1, counting_cb)] @ (0, throwing_cb) # [(2, counting_cb)])" by simp
  have h2: "\<forall>i<length [(1 :: nat, counting_cb)].
              snd (snd ([(1, counting_cb)] ! i) () (world_after (take i [(1, counting_cb)]) () 0)) = None"
    by (simp add: counting_cb_def)
  have h3: "snd (0 :: nat, throwing_cb) () (world_after [(1 :: nat, counting_cb)] () 0)
              = (1, Some (JsError ''subscriber failed''))"
    by (simp add: world_after_def counting_cb_def throwing_cb_def)
  have h4: "map_of [(''chat:message'', [(1, counting_cb), (2, counting_cb)])] ''chat:message''
     = Some [(1, counting_cb), (2, counting_cb)]" by simp
  have h5: "\<forall>i<length [(1 :: nat, counting_cb), (2, counting_cb)].
              snd (snd ([(1 :: nat, counting_cb), (2, counting_cb)] ! i) ()
                     (world_after (take i [(1 :: nat, counting_cb), (2, counting_cb)]) () 0)) = None"
    by (simp add: counting_cb_def less_Suc_eq)
  have w5: "world_after [(1 :: nat, counting_cb), (2, counting_cb)] () 0 = 2"
    by (simp add: world_after_def counting_cb_def)
  note t = events_emit_first_throw[where
      ls = "[(''chat:message'', [(1, counting_cb), (0, throwing_cb), (2, counting_cb)])]"
      and event = "''chat:message''" and pre = "[(1, counting_cb)]" and cb = "(0, throwing_cb)"
      and post = "[(2, counting_cb)]" and d = "()" and w = 0 and ?w2.0 = 1
      and e = "JsError ''subscriber failed''"
      and ls' = "[(''chat:message'', [(1, counting_cb), (2, counting_cb)])]"
      and event' = "''chat:message''" and cs = "[(1, counting_cb), (2, counting_cb)]"
      and d' = "()" and w' = 0]
  from t h1 h2 h3 have 1: "events_emit [(''chat:message'', [(1, counting_cb), (0, throwing_cb), (2, counting_cb)])]
        ''chat:message'' () 0 = (map fst [(1 :: nat, counting_cb)] @ [fst (0 :: nat, throwing_cb)], 1,
                                 Some (JsError ''subscriber failed''))"
    by blast
  from t h4 h5 have 2: "events_emit [(''chat:message'', [(1, counting_cb), (2, counting_cb)])]
        ''chat:message'' () 0 = (map fst [(1 :: nat, counting_cb), (2, counting_cb)],
                                 world_after [(1 :: nat, counting_cb), (2, counting_cb)] () 0, None)"
    by blast
  show ?thesis using 1 2 unfolding w5 by simp
qed

text \<open>
  C2 as stated fails. With a throwing subscriber registered before a counting one, \<^verbatim>\<open>emit\<close>
  invokes only the first: the counter is still 0 and the exception has left \<^verbatim>\<open>emit\<close>.
\<close>

theorem events_emit_isolation_counterexample:
  "events_emit [(''chat:message'', [(0, throwing_cb), (1, counting_cb)])] ''chat:message'' () 0
     = ([0], 0, Some (JsError ''subscriber failed''))"
  by (simp add: events_emit_def throwing_cb_def counting_cb_def)

section \<open>Failure of media acquisition\<close>

text \<open>
  C3, as the code has it. When \<^verbatim>\<open>getUserMedia\<close> fails with \<open>err\<close>, \<^verbatim>\<open>createRoom\<close> fails:
  its promise is rejected, with \<^verbatim>\<open>Error('Failed to access camera/microphone')\<close> once the
  error has been reported. One \<^verbatim>\<open>error\<close> event is published and nothing is acquired:
  \<^verbatim>\<open>peers\<close>, \<^verbatim>\<open>connections\<close>, \<^verbatim>\<open>localStream\<close> and the transport identity are as before
  the attempt. The attempt is not undone: \<^verbatim>\<open>roomCode\<close> was assigned first and keeps the
  new code.
\<close>

theorem createRoom_media_failure_keeps_code:
  "(\<exists>e. snd (createRoom host uuid (Inl err) uuid' sig s) = Rejected e)
   \<and> (host \<longrightarrow> snd (createRoom host uuid (Inl err) uuid' sig s)
                   = Rejected (JsError ''Failed to access camera/microphone''))
   \<and> roomCode (fst (createRoom host uuid (Inl err) uuid' sig s)) = Some (toUpperCase (slice uuid 0 6))
   \<and> peers (fst (createRoom host uuid (Inl err) uuid' sig s)) = peers s
   \<and> connections (fst (createRoom host uuid (Inl err) uuid' sig s)) = connections s
   \<and> localStream (fst (createRoom host uuid (Inl err) uuid' sig s)) = localStream s
   \<and> peer (fst (createRoom host uuid (Inl err) uuid' sig s)) = peer s
   \<and> emitted (new_effects s (fst (createRoom host uuid (Inl err) uuid' sig s)))
       = [ErrorEvent err ''media-initialization'']"
  by (simp add: createRoom_def initializeMedia_def report_def emit_def perform_def Let_def
        new_effects_def emitted_def)

text \<open>
  A denied media request from the initial state: rejected with the media error, room code
  \<^verbatim>\<open>3F2A9C\<close> left behind, nothing else held.
\<close>

theorem createRoom_media_failure_keeps_code_witness:
  "snd (createRoom True ''3f2a9c1e-7b4d-4e8a-9c0f-5d6e7f8091a2'' (Inl (ExternalError ''NotAllowedError''))
          ''0b1c2d3e-4f50-4a6b-8c7d-9e0f1a2b3c4d'' (Peer_open ''0b1c2d3e-4f50-4a6b-8c7d-9e0f1a2b3c4d'') initial)
     = Rejected (JsError ''Failed to access camera/microphone'')
   \<and> roomCode (fst (createRoom True ''3f2a9c1e-7b4d-4e8a-9c0f-5d6e7f8091a2'' (Inl (ExternalError ''NotAllowedError''))
          ''0b1c2d3e-4f50-4a6b-8c7d-9e0f1a2b3c4d'' (Peer_open ''0b1c2d3e-4f50-4a6b-8c7d-9e0f1a2b3c4d'') initial))
     = Some ''3F2A9C''
   \<and> peer (fst (createRoom True ''3f2a9c1e-7b4d-4e8a-9c0f-5d6e7f8091a2'' (Inl (ExternalError ''NotAllowedError''))
          ''0b1c2d3e-4f50-4a6b-8c7d-9e0f1a2b3c4d'' (Peer_open ''0b1c2d3e-4f50-4a6b-8c7d-9e0f1a2b3c4d'') initial))
     = None
   \<and> localStream (fst (createRoom True ''3f2a9c1e-7b4d-4e8a-9c0f-5d6e7f8091a2'' (Inl (ExternalError ''NotAllowedError''))
          ''0b1c2d3e-4f50-4a6b-8c7d-9e0f1a2b3c4d'' (Peer_open ''0b1c2d3e-4f50-4a6b-8c7d-9e0f1a2b3c4d'') initial))
     = None"
proof -
  have u: "toUpperCase (slice ''3f2a9c1e-7b4d-4e8a-9c0f-5d6e7f8091a2'' 0 6) = ''3F2A9C''"
    by (simp add: toUpperCase_def toUpperCase_char_def lower_letters_def upper_letters_def slice_def)
  have i: "peer initial = None" "localStream initial = None" by (simp_all add: initial_def)
  from createRoom_media_failure_keeps_code[of True "''3f2a9c1e-7b4d-4e8a-9c0f-5d6e7f8091a2''"
      "ExternalError ''NotAllowedError''" "''0b1c2d3e-4f50-4a6b-8c7d-9e0f1a2b3c4d''"
      "Peer_open ''0b1c2d3e-4f50-4a6b-8c7d-9e0f1a2b3c4d''" initial]
  show ?thesis unfolding u i by simp
qed

text \<open>
  C3 as stated fails. From the initial state, where no room code is set, a \<^verbatim>\<open>createRoom\<close>
  whose media request is denied is rejected and leaves \<^verbatim>\<open>roomCode = '3F2A9C'\<close>, with
  or without a global \<^verbatim>\<open>showError\<close> on the host page.
\<close>

theorem createRoom_media_failure_counterexample:
  "snd (createRoom True ''3f2a9c1e-7b4d-4e8a-9c0f-5d6e7f8091a2'' (Inl (ExternalError ''NotAllowedError''))
          ''0b1c2d3e-4f50-4a6b-8c7d-9e0f1a2b3c4d'' (Peer_open ''0b1c2d3e-4f50-4a6b-8c7d-9e0f1a2b3c4d'') initial)
     = Rejected (JsError ''Failed to access camera/microphone'')
   \<and> roomCode initial = None
   \<and> roomCode (fst (createRoom True ''3f2a9c1e-7b4d-4e8a-9c0f-5d6e7f8091a2'' (Inl (ExternalError ''NotAllowedError''))
          ''0b1c2d3e-4f50-4a6b-8c7d-9e0f1a2b3c4d'' (Peer_open ''0b1c2d3e-4f50-4a6b-8c7d-9e0f1a2b3c4d'') initial))
     = Some ''3F2A9C''
   \<and> roomCode (fst (createRoom False ''3f2a9c1e-7b4d-4e8a-9c0f-5d6e7f8091a2'' (Inl (ExternalError ''NotAllowedError''))
          ''0b1c2d3e-4f50-4a6b-8c7d-9e0f1a2b3c4d'' (Peer_open ''0b1c2d3e-4f50-4a6b-8c7d-9e0f1a2b3c4d'') initial))
     = Some ''3F2A9C''"
  by (simp add: createRoom_def initializeMedia_def report_def emit_def perform_def Let_def
        initial_def toUpperCase_def toUpperCase_char_def lower_letters_def upper_letters_def slice_def)

section \<open>Closing a call\<close>

text \<open>
  C4 at a concrete run. From an active state: a granted \<^verbatim>\<open>connectToPeer('bob')\<close>, the data
  connection opens, the call streams, the call closes, the data connection closes. Both
  \<^verbatim>\<open>peer:disconnect\<close> events have been emitted and \<^verbatim>\<open>connections\<close> is empty, but
  \<^verbatim>\<open>peers\<close> still holds the closed call of \<^verbatim>\<open>bob\<close>: the \<^verbatim>\<open>close\<close> handler of
  \<^verbatim>\<open>handleCall\<close> does not delete it, where the one of \<^verbatim>\<open>handleConnection\<close> does.
\<close>

theorem closed_call_stays_registered:
  "peers (run active0
      [Cmd_connectToPeer ''bob'' (Returns 0) (Returns 1),
       Transport (Conn_open (DataConnection 1 ''bob'')),
       Transport (Call_stream (MediaConnection 0 ''bob'') (MediaStream 7 [2, 3])),
       Transport (Call_closed (MediaConnection 0 ''bob'')),
       Transport (Conn_closed (DataConnection 1 ''bob''))])
     = [(''bob'', MediaConnection 0 ''bob'')]
   \<and> connections (run active0
      [Cmd_connectToPeer ''bob'' (Returns 0) (Returns 1),
       Transport (Conn_open (DataConnection 1 ''bob'')),
       Transport (Call_stream (MediaConnection 0 ''bob'') (MediaStream 7 [2, 3])),
       Transport (Call_closed (MediaConnection 0 ''bob'')),
       Transport (Conn_closed (DataConnection 1 ''bob''))]) = []
   \<and> emitted (trace (run active0
      [Cmd_connectToPeer ''bob'' (Returns 0) (Returns 1),
       Transport (Conn_open (DataConnection 1 ''bob'')),
       Transport (Call_stream (MediaConnection 0 ''bob'') (MediaStream 7 [2, 3])),
       Transport (Call_closed (MediaConnection 0 ''bob'')),
       Transport (Conn_closed (DataConnection 1 ''bob''))]))
     = [PeerConnect ''bob'', PeerStream ''bob'' (MediaStream 7 [2, 3]),
        PeerDisconnect ''bob'', PeerDisconnect ''bob'']"
  by (simp add: run_def active0_def connectToPeer_def Let_def perform_def handleCall_def
        handleConnection_def on_conn_open_def on_conn_close_def on_call_stream_def
        on_call_close_def emit_def Map_delete_def emitted_def)

section \<open>The room code\<close>

lemma letters_length: "length lower_letters = length upper_letters"
  by (simp add: lower_letters_def upper_letters_def)

lemma letters_disjoint: "C \<in> set upper_letters \<Longrightarrow> C \<notin> set lower_letters"
  by (auto simp: lower_letters_def upper_letters_def)

lemma toUpperCase_char_not_lower: "\<not> is_lower (toUpperCase_char c)"
proof (cases "map_of (zip lower_letters upper_letters) c")
  case None
  then have "c \<notin> set (map fst (zip lower_letters upper_letters))"
    by (simp add: map_of_eq_None_iff)
  then have "c \<notin> set lower_letters"
    using letters_length by simp
  then show ?thesis using None by (simp add: toUpperCase_char_def is_lower_def)
next
  case (Some C)
  then have "(c, C) \<in> set (zip lower_letters upper_letters)" by (rule map_of_SomeD)
  then have "C \<in> set upper_letters" by (rule set_zip_rightD)
  then have "C \<notin> set lower_letters" by (rule letters_disjoint)
  then show ?thesis using Some by (simp add: toUpperCase_char_def is_lower_def)
qed

lemma toUpperCase_char_hex:
  assumes "is_hex_lower c"
  shows "is_upper (toUpperCase_char c) \<or> is_digit (toUpperCase_char c)"
proof -
  have "list_all (\<lambda>x. is_upper (toUpperCase_char x) \<or> is_digit (toUpperCase_char x))
          ''0123456789abcdef''"
    by code_simp
  then have "\<forall>x \<in> set ''0123456789abcdef''.
               is_upper (toUpperCase_char x) \<or> is_digit (toUpperCase_char x)"
    unfolding list_all_iff .
  then show ?thesis using assms unfolding is_hex_lower_def by (rule bspec)
qed

lemma uuid_prefix_hex:
  assumes "is_uuid u"
  shows "length (slice u 0 6) = 6 \<and> list_all is_hex_lower (slice u 0 6)"
proof -
  from assms have len: "length u = 36" by (simp add: is_uuid_def)
  from assms have "list_all (\<lambda>i. if i \<in> set [8, 13, 18, 23] then u ! i = CHR ''-'' else is_hex_lower (u ! i)) [0..<36]"
    unfolding is_uuid_def by (rule conjunct2)
  then have all: "\<forall>i\<in>{0..<36}. if i \<in> set [8, 13, 18, 23] then u ! i = CHR ''-'' else is_hex_lower (u ! i)"
    unfolding list_all_iff set_upt .
  have "is_hex_lower (u ! i)" if "i < 6" for i
  proof -
    from that have "i \<in> {0..<36}" by simp
    with all have "if i \<in> set [8, 13, 18, 23] then u ! i = CHR ''-'' else is_hex_lower (u ! i)" by (rule bspec)
    then show ?thesis using that by auto
  qed
  then show ?thesis using len by (simp add: slice_def list_all_length)
qed

lemma createRoom_code:
  "is_uuid uuid \<Longrightarrow> matches_room_code (toUpperCase (slice uuid 0 6))"
  using uuid_prefix_hex[of uuid]
  by (auto simp: matches_room_code_def toUpperCase_def list_all_iff toUpperCase_char_hex)

lemma createRoom_roomCode:
  "roomCode (fst (createRoom host uuid gum uuid' sig s)) = Some (toUpperCase (slice uuid 0 6))"
proof -
  let ?s1 = "s\<lparr>roomCode := Some (toUpperCase (slice uuid 0 6))\<rparr>"
  obtain s2 r where m: "initializeMedia host gum ?s1 = (s2, r)" by (cases "initializeMedia host gum ?s1")
  then have r2: "roomCode s2 = Some (toUpperCase (slice uuid 0 6))"
    using initializeMedia_roomCode[of host gum ?s1] by simp
  obtain s3 r' where p: "initializePeer host uuid' sig s2 = (s3, r')" by (cases "initializePeer host uuid' sig s2")
  then have r3: "roomCode s3 = Some (toUpperCase (slice uuid 0 6))"
    using initializePeer_roomCode[of host uuid' sig s2] r2 by simp
  show ?thesis using m p r2 r3
    by (cases r; cases r') (simp_all add: createRoom_def Let_def)
qed

lemma joinRoom_roomCode:
  "roomCode (fst (joinRoom host code gum uuid' sig answers s)) = Some (toUpperCase code)"
proof -
  let ?s1 = "s\<lparr>roomCode := Some (toUpperCase code)\<rparr>"
  obtain s2 r where m: "initializeMedia host gum ?s1 = (s2, r)" by (cases "initializeMedia host gum ?s1")
  then have r2: "roomCode s2 = Some (toUpperCase code)"
    using initializeMedia_roomCode[of host gum ?s1] by simp
  obtain s3 r' where p: "initializePeer host uuid' sig s2 = (s3, r')" by (cases "initializePeer host uuid' sig s2")
  then have r3: "roomCode s3 = Some (toUpperCase code)"
    using initializePeer_roomCode[of host uuid' sig s2] r2 by simp
  show ?thesis using m p r2 r3 connectToRoom_state[of answers s3]
    by (cases r; cases r') (simp_all add: joinRoom_def Let_def)
qed

lemma createRoom_success:
  "snd (createRoom host uuid (Inr stream) uuid' (Peer_open ident) s)
     = Resolved (Some (toUpperCase (slice uuid 0 6)))"
  by (simp add: createRoom_def initializeMedia_def initializePeer_def emit_def perform_def Let_def
        setupPeerEvents_def split: option.splits)

text \<open>
  C9. For every UUID that \<^verbatim>\<open>utils.generateId\<close> draws, the code \<^verbatim>\<open>createRoom\<close> stores
  in \<^verbatim>\<open>roomCode\<close>, and resolves with when media and transport come up, is six characters
  from \<^verbatim>\<open>A-Z\<close> and \<^verbatim>\<open>0-9\<close>. \<^verbatim>\<open>joinRoom(code)\<close> stores \<^verbatim>\<open>code.toUpperCase()\<close> in
  \<^verbatim>\<open>roomCode\<close> before anything else and nothing later changes it, whatever the outcome
  of the join; no lower-case letter is left in it. The typed code is ASCII, as the join
  dialog's pattern \<^verbatim>\<open>[A-Za-z0-9]{6}\<close> has it.
\<close>

theorem roomCode_format:
  assumes "is_uuid uuid" and "list_all is_ascii code"
  shows "matches_room_code (toUpperCase (slice uuid 0 6))
       \<and> roomCode (fst (createRoom host uuid gum uuid' sig s)) = Some (toUpperCase (slice uuid 0 6))
       \<and> snd (createRoom host uuid (Inr stream) uuid' (Peer_open ident) s)
           = Resolved (Some (toUpperCase (slice uuid 0 6)))
       \<and> roomCode (fst (joinRoom host code gum uuid' sig answers s)) = Some (toUpperCase code)
       \<and> list_all (\<lambda>c. \<not> is_lower c) (toUpperCase code)"
  using createRoom_code[OF assms(1)] createRoom_roomCode joinRoom_roomCode createRoom_success
  by (simp add: list_all_iff toUpperCase_def toUpperCase_char_not_lower)

text \<open>
  The UUID \<^verbatim>\<open>3f2a9c1e-...\<close> gives the room code \<^verbatim>\<open>3F2A9C\<close>; joining with \<^verbatim>\<open>ab12cd\<close>
  sets the room code \<^verbatim>\<open>AB12CD\<close>.
\<close>

theorem roomCode_format_witness:
  "is_uuid ''3f2a9c1e-7b4d-4e8a-9c0f-5d6e7f8091a2''
   \<and> list_all is_ascii ''ab12cd''
   \<and> toUpperCase (slice ''3f2a9c1e-7b4d-4e8a-9c0f-5d6e7f8091a2'' 0 6) = ''3F2A9C''
   \<and> matches_room_code ''3F2A9C''
   \<and> snd (createRoom True ''3f2a9c1e-7b4d-4e8a-9c0f-5d6e7f8091a2'' (Inr (MediaStream 0 [0, 1]))
            ''0b1c2d3e-4f50-4a6b-8c7d-9e0f1a2b3c4d'' (Peer_open ''0b1c2d3e-4f50-4a6b-8c7d-9e0f1a2b3c4d'') initial)
       = Resolved (Some ''3F2A9C'')
   \<and> roomCode (fst (joinRoom True ''ab12cd'' (Inr (MediaStream 0 [0, 1]))
            ''0b1c2d3e-4f50-4a6b-8c7d-9e0f1a2b3c4d'' (Peer_open ''0b1c2d3e-4f50-4a6b-8c7d-9e0f1a2b3c4d'')
            no_answers initial))
       = Some ''AB12CD''"
proof -
  have h: "is_uuid ''3f2a9c1e-7b4d-4e8a-9c0f-5d6e7f8091a2''" by code_simp
  have a: "list_all is_ascii ''ab12cd''" by (simp add: is_ascii_def)
  have u: "toUpperCase (slice ''3f2a9c1e-7b4d-4e8a-9c0f-5d6e7f8091a2'' 0 6) = ''3F2A9C''"
    by (simp add: toUpperCase_def toUpperCase_char_def lower_letters_def upper_letters_def slice_def)
  have j: "toUpperCase ''ab12cd'' = ''AB12CD''"
    by (simp add: toUpperCase_def toUpperCase_char_def lower_letters_def upper_letters_def)
  from roomCode_format[OF h a, of True "Inr (MediaStream 0 [0, 1])"
      "''0b1c2d3e-4f50-4a6b-8c7d-9e0f1a2b3c4d''" "Peer_open ''0b1c2d3e-4f50-4a6b-8c7d-9e0f1a2b3c4d''"
      initial "MediaStream 0 [0, 1]" "''0b1c2d3e-4f50-4a6b-8c7d-9e0f1a2b3c4d''" no_answers]
  show ?thesis using h a unfolding u j by simp
qed

section \<open>Open data channels and sending\<close>

lemma event_conns_append: "event_conns (xs @ ys) = event_conns xs @ event_conns ys"
  by (induction xs rule: event_conns.induct) simp_all

lemma dataState_snoc: "dataState (evs @ [e]) c = dataState_step c (dataState evs c) e"
  by (simp add: dataState_def)

lemma latest_open_snoc: "latest_open (evs @ [e]) p = latest_open_step p (latest_open evs p) e"
  by (simp add: latest_open_def)

lemma channels_apart_snoc:
  "channels_apart (evs @ [e]) =
     (channels_apart evs \<and>
      (\<forall>c \<in> set (event_conns [e]). \<forall>c' \<in> set (event_conns evs).
          \<not> (conn_peer c' = conn_peer c \<and> c' \<noteq> c \<and> dataState evs c' = Open)))"
  by (simp add: channels_apart_def list_all_iff)

lemma dataState_Open_seen: "dataState evs c = Open \<Longrightarrow> c \<in> set (event_conns evs)"
proof (induction evs rule: rev_induct)
  case Nil
  then show ?case by (simp add: dataState_def)
next
  case (snoc e evs)
  show ?case
  proof (cases "e = Conn_open c")
    case True
    then show ?thesis by (simp add: event_conns_append)
  next
    case False
    with snoc.prems have "dataState evs c = Open"
      by (simp add: dataState_snoc dataState_step_def split: if_splits)
    then show ?thesis using snoc.IH by (simp add: event_conns_append)
  qed
qed

lemma connections_lookup:
  assumes "connections s0 = []"
  shows "map_of (connections (deliver_all s0 evs)) p = latest_open evs p"
proof (induction evs rule: rev_induct)
  case Nil
  then show ?case using assms by (simp add: deliver_all_def latest_open_def)
next
  case (snoc e evs)
  then show ?case
    by (cases e)
       (simp_all add: deliver_all_snoc deliver_connections latest_open_snoc latest_open_step_def
          Map_set_lookup Map_delete_map_of del: deliver.simps)
qed

lemma connections_distinct:
  assumes "connections s0 = []"
  shows "distinct (map fst (connections (deliver_all s0 evs)))"
proof (induction evs rule: rev_induct)
  case Nil
  then show ?case using assms by (simp add: deliver_all_def)
next
  case (snoc e evs)
  then show ?case
    by (cases e)
       (simp_all add: deliver_all_snoc deliver_connections Map_set_distinct Map_delete_distinct
          del: deliver.simps)
qed

lemma latest_open_peer: "latest_open evs p = Some c \<Longrightarrow> conn_peer c = p"
proof (induction evs rule: rev_induct)
  case Nil
  then show ?case by (simp add: latest_open_def)
next
  case (snoc e evs)
  then show ?case
    by (cases e) (auto simp: latest_open_snoc latest_open_step_def split: if_splits)
qed

lemma connections_entries:
  assumes "connections s0 = []"
  shows "set (connections (deliver_all s0 evs))
           = {(conn_peer c, c) | c. latest_open evs (conn_peer c) = Some c}"
proof (rule set_eqI)
  fix x :: "peer_id \<times> data_conn"
  obtain p c where x: "x = (p, c)" by (cases x)
  have "(p, c) \<in> set (connections (deliver_all s0 evs)) \<longleftrightarrow> latest_open evs p = Some c"
    using connections_distinct[OF assms, of evs] connections_lookup[OF assms, of evs p]
    by (metis map_of_eq_Some_iff)
  also have "\<dots> \<longleftrightarrow> p = conn_peer c \<and> latest_open evs (conn_peer c) = Some c"
    using latest_open_peer[of evs p c] by auto
  finally show "x \<in> set (connections (deliver_all s0 evs))
          \<longleftrightarrow> x \<in> {(conn_peer c, c) | c. latest_open evs (conn_peer c) = Some c}"
    using x by auto
qed

lemma apart_latest_open:
  "channels_apart evs \<Longrightarrow> latest_open evs (conn_peer c) = Some c \<longleftrightarrow> dataState evs c = Open"
proof (induction evs arbitrary: c rule: rev_induct)
  case Nil
  then show ?case by (simp add: latest_open_def dataState_def)
next
  case (snoc e evs)
  from snoc.prems have ap: "channels_apart evs"
    and ex: "\<forall>c0 \<in> set (event_conns [e]). \<forall>c' \<in> set (event_conns evs).
               \<not> (conn_peer c' = conn_peer c0 \<and> c' \<noteq> c0 \<and> dataState evs c' = Open)"
    by (simp_all add: channels_apart_snoc)
  note IH = snoc.IH[OF ap]
  have other: "dataState evs c \<noteq> Open"
    if "c0 \<in> set (event_conns [e])" "conn_peer c = conn_peer c0" "c \<noteq> c0" for c0
  proof
    assume o: "dataState evs c = Open"
    then have "c \<in> set (event_conns evs)" by (rule dataState_Open_seen)
    with ex that o show False by blast
  qed
  show ?case
  proof (cases e)
    case (Conn_open c0)
    show ?thesis
    proof (cases "conn_peer c = conn_peer c0")
      case True
      then show ?thesis using other[of c0] Conn_open
        by (cases "c = c0")
           (auto simp: latest_open_snoc latest_open_step_def dataState_snoc dataState_step_def)
    next
      case False
      then show ?thesis using IH[of c] Conn_open
        by (auto simp: latest_open_snoc latest_open_step_def dataState_snoc dataState_step_def)
    qed
  next
    case (Conn_closed c0)
    show ?thesis
    proof (cases "conn_peer c = conn_peer c0")
      case True
      then show ?thesis using other[of c0] Conn_closed
        by (cases "c = c0")
           (auto simp: latest_open_snoc latest_open_step_def dataState_snoc dataState_step_def)
    next
      case False
      then show ?thesis using IH[of c] Conn_closed
        by (auto simp: latest_open_snoc latest_open_step_def dataState_snoc dataState_step_def)
    qed
  next
    case (Incoming_call x)
    then show ?thesis using IH[of c]
      by (simp add: latest_open_snoc latest_open_step_def dataState_snoc dataState_step_def)
  next
    case (Incoming_connection x)
    then show ?thesis using IH[of c]
      by (simp add: latest_open_snoc latest_open_step_def dataState_snoc dataState_step_def)
  next
    case (Call_stream x y)
    then show ?thesis using IH[of c]
      by (simp add: latest_open_snoc latest_open_step_def dataState_snoc dataState_step_def)
  next
    case (Call_closed x)
    then show ?thesis using IH[of c]
      by (simp add: latest_open_snoc latest_open_step_def dataState_snoc dataState_step_def)
  next
    case (Conn_data x y z)
    then show ?thesis using IH[of c]
      by (simp add: latest_open_snoc latest_open_step_def dataState_snoc dataState_step_def)
  qed
qed

text \<open>
  C5, as the code has it. Let the transport deliver any sequence of events \<open>evs\<close> to a
  coordinator whose \<^verbatim>\<open>connections\<close> map was empty. Then \<^verbatim>\<open>sendMessage\<close> performs exactly
  this: one \<^verbatim>\<open>send\<close> of the payload \<^verbatim>\<open>{type: 'chat', sender, content}\<close> on each channel
  on file, each once, followed by one \<^verbatim>\<open>chat:message\<close> event with the same sender and
  content and the local time; the sender is the user's name, or \<^verbatim>\<open>'Anonymous'\<close> without
  one. The channel on file for a peer is the one opened last for it, unless a channel of
  that peer has closed since. When the history keeps the channels of each peer apart in
  time, the channels on file are exactly the channels that are \<open>Open\<close>; channels that have
  closed are passed over without error. The echo is emitted once whatever the number of
  channels, none included.
\<close>

theorem sendMessage_open_peers:
  assumes "connections s0 = []"
  shows "new_effects (deliver_all s0 evs) (sendMessage (deliver_all s0 evs) user message now)
           = map (\<lambda>c. Conn_send c
                    (JObj [(''type'', JStr ''chat''),
                           (''sender'', JStr (case user of
                                               None \<Rightarrow> ''Anonymous''
                                             | Some u \<Rightarrow> if user_name u = [] then ''Anonymous''
                                                         else user_name u)),
                           (''content'', JStr message)]))
               (send_targets (new_effects (deliver_all s0 evs)
                                (sendMessage (deliver_all s0 evs) user message now)))
             @ [Emit (ChatMessage (JStr (case user of
                                           None \<Rightarrow> ''Anonymous''
                                         | Some u \<Rightarrow> if user_name u = [] then ''Anonymous''
                                                     else user_name u))
                        (JStr message) now)]
       \<and> distinct (send_targets (new_effects (deliver_all s0 evs)
                                   (sendMessage (deliver_all s0 evs) user message now)))
       \<and> set (send_targets (new_effects (deliver_all s0 evs)
                              (sendMessage (deliver_all s0 evs) user message now)))
           = {c. latest_open evs (conn_peer c) = Some c}
       \<and> (channels_apart evs \<longrightarrow>
            set (send_targets (new_effects (deliver_all s0 evs)
                                 (sendMessage (deliver_all s0 evs) user message now)))
              = {c. dataState evs c = Open})
       \<and> emitted (new_effects (deliver_all s0 evs) (sendMessage (deliver_all s0 evs) user message now))
           = [ChatMessage (JStr (case user of
                                   None \<Rightarrow> ''Anonymous''
                                 | Some u \<Rightarrow> if user_name u = [] then ''Anonymous''
                                             else user_name u))
                (JStr message) now]"
proof -
  let ?s = "deliver_all s0 evs"
  let ?d = "chat_data user message"
  let ?ev = "ChatMessage (JStr (sender_name user)) (JStr message) now"
  note d = connections_distinct[OF assms, of evs]
  note st = connections_entries[OF assms, of evs]
  have ne: "new_effects ?s (sendMessage ?s user message now)
              = map (\<lambda>c. Conn_send c ?d) (Map_values (connections ?s)) @ [Emit ?ev]"
    by (simp add: new_effects_def sendMessage_trace)
  have tg: "send_targets (new_effects ?s (sendMessage ?s user message now)) = Map_values (connections ?s)"
    unfolding ne by (rule send_targets_sends)
  have em: "emitted (new_effects ?s (sendMessage ?s user message now)) = [?ev]"
    unfolding ne by (rule emitted_sends)
  have "set (Map_values (connections ?s)) = snd ` set (connections ?s)" by (simp add: Map_values_def)
  also have "\<dots> = {c. latest_open evs (conn_peer c) = Some c}" unfolding st by force
  finally have s1: "set (Map_values (connections ?s)) = {c. latest_open evs (conn_peer c) = Some c}" .
  have "\<forall>e \<in> set (connections ?s). fst e = conn_peer (snd e)" unfolding st by auto
  with d have s2: "distinct (Map_values (connections ?s))"
    unfolding Map_values_def by (rule distinct_values)
  have s3: "channels_apart evs \<longrightarrow> set (Map_values (connections ?s)) = {c. dataState evs c = Open}"
    unfolding s1 using apart_latest_open[of evs] by auto
  show ?thesis unfolding tg em using ne[unfolded tg[symmetric]] s1 s2 s3
    by (simp add: chat_data_def sender_name_def tg)
qed

text \<open>
  Three peers open a channel, one closes it again, and one closes and reconnects on a new
  channel: the payload goes to the two channels that are open, and one echo is emitted.
\<close>

theorem sendMessage_open_peers_witness:
  "connections active0 = []
   \<and> channels_apart [Conn_open bob_conn, Conn_open cat_conn, Conn_open dan_conn,
                      Conn_closed cat_conn, Conn_closed bob_conn, Conn_open bob_conn2]
   \<and> send_targets (new_effects
        (deliver_all active0 [Conn_open bob_conn, Conn_open cat_conn, Conn_open dan_conn,
                              Conn_closed cat_conn, Conn_closed bob_conn, Conn_open bob_conn2])
        (sendMessage (deliver_all active0 [Conn_open bob_conn, Conn_open cat_conn, Conn_open dan_conn,
                              Conn_closed cat_conn, Conn_closed bob_conn, Conn_open bob_conn2])
           None ''hi'' 1000)) = [dan_conn, bob_conn2]
   \<and> {c. dataState [Conn_open bob_conn, Conn_open cat_conn, Conn_open dan_conn,
                     Conn_closed cat_conn, Conn_closed bob_conn, Conn_open bob_conn2] c = Open}
       = {dan_conn, bob_conn2}
   \<and> emitted (new_effects
        (deliver_all active0 [Conn_open bob_conn, Conn_open cat_conn, Conn_open dan_conn,
                              Conn_closed cat_conn, Conn_closed bob_conn, Conn_open bob_conn2])
        (sendMessage (deliver_all active0 [Conn_open bob_conn, Conn_open cat_conn, Conn_open dan_conn,
                              Conn_closed cat_conn, Conn_closed bob_conn, Conn_open bob_conn2])
           None ''hi'' 1000)) = [ChatMessage (JStr ''Anonymous'') (JStr ''hi'') 1000]"
proof -
  let ?evs = "[Conn_open bob_conn, Conn_open cat_conn, Conn_open dan_conn,
               Conn_closed cat_conn, Conn_closed bob_conn, Conn_open bob_conn2]"
  have h1: "connections active0 = []" by (simp add: active0_def)
  have h2: "channels_apart ?evs" by code_simp
  have c: "connections (deliver_all active0 ?evs) = [(''dan'', dan_conn), (''bob'', bob_conn2)]"
    by (simp add: deliver_all_def active0_def on_conn_open_def on_conn_close_def emit_def perform_def
          Map_delete_def bob_conn_def cat_conn_def dan_conn_def bob_conn2_def)
  have t: "send_targets (new_effects (deliver_all active0 ?evs)
             (sendMessage (deliver_all active0 ?evs) None ''hi'' 1000)) = [dan_conn, bob_conn2]"
    by (simp add: new_effects_def sendMessage_trace c Map_values_def send_targets_def)
  note main = sendMessage_open_peers[OF h1, of ?evs None "''hi''" 1000]
  from main have a: "channels_apart ?evs \<longrightarrow>
           set (send_targets (new_effects (deliver_all active0 ?evs)
             (sendMessage (deliver_all active0 ?evs) None ''hi'' 1000)))
           = {c. dataState ?evs c = Open}" by (rule conjunct1[OF conjunct2[OF conjunct2[OF conjunct2]]])
  from main have b: "emitted (new_effects (deliver_all active0 ?evs)
             (sendMessage (deliver_all active0 ?evs) None ''hi'' 1000))
           = [ChatMessage (JStr (case None :: app_user option of
                                   None \<Rightarrow> ''Anonymous''
                                 | Some u \<Rightarrow> if user_name u = [] then ''Anonymous''
                                             else user_name u)) (JStr ''hi'') 1000]"
    by (rule conjunct2[OF conjunct2[OF conjunct2[OF conjunct2]]])
  have a': "{c. dataState ?evs c = Open} = {dan_conn, bob_conn2}"
    using a h2 unfolding t by simp
  have b': "emitted (new_effects (deliver_all active0 ?evs)
             (sendMessage (deliver_all active0 ?evs) None ''hi'' 1000))
           = [ChatMessage (JStr ''Anonymous'') (JStr ''hi'') 1000]"
    using b by simp
  show ?thesis using h1 h2 t a' b' by (intro conjI)
qed

text \<open>
  C5 as stated fails. Both sides dial: two channels to \<^verbatim>\<open>bob\<close> open, then the first one
  closes. The second channel is \<open>Open\<close>, but the \<^verbatim>\<open>close\<close> handler has deleted the entry
  of \<^verbatim>\<open>bob\<close>, and \<^verbatim>\<open>sendMessage\<close> sends him nothing.
\<close>

theorem sendMessage_open_peers_counterexample:
  "dataState [Conn_open bob_conn, Conn_open bob_conn2, Conn_closed bob_conn] bob_conn2 = Open
   \<and> send_targets (new_effects
        (deliver_all active0 [Conn_open bob_conn, Conn_open bob_conn2, Conn_closed bob_conn])
        (sendMessage (deliver_all active0 [Conn_open bob_conn, Conn_open bob_conn2, Conn_closed bob_conn])
           None ''hi'' 1000)) = []"
proof -
  have c: "connections (deliver_all active0 [Conn_open bob_conn, Conn_open bob_conn2, Conn_closed bob_conn]) = []"
    by (simp add: deliver_all_def active0_def on_conn_open_def on_conn_close_def emit_def perform_def
          Map_delete_def bob_conn_def bob_conn2_def)
  have "dataState [Conn_open bob_conn, Conn_open bob_conn2, Conn_closed bob_conn] bob_conn2 = Open"
    by (simp add: dataState_def dataState_step_def bob_conn_def bob_conn2_def)
  then show ?thesis
    by (simp add: new_effects_def sendMessage_trace c Map_values_def send_targets_def)
qed

section \<open>The connections map holds opened channels only\<close>

lemma step_connections:
  "set (connections (step s a)) \<subseteq>
     (case a of Transport (Conn_open c) \<Rightarrow> insert (conn_peer c, c) (set (connections s))
              | _ \<Rightarrow> set (connections s))"
proof (cases a)
  case (Transport ev)
  then show ?thesis using Map_set_subset[of "connections s"]
    by (cases ev) (simp_all add: deliver_connections Map_delete_entries del: deliver.simps)
next
  case (Cmd_connectToPeer q a1 a2)
  then show ?thesis by (simp add: connectToPeer_connections)
next
  case (Cmd_sendMessage u m t)
  then show ?thesis by (simp add: sendMessage_fields)
next
  case Cmd_stopMedia
  then show ?thesis by (simp add: stopMedia_clears)
qed

lemma run_connections_opened:
  assumes "connections s0 = []"
  shows "\<forall>e \<in> set (connections (run s0 acts)).
           fst e = conn_peer (snd e) \<and> Transport (Conn_open (snd e)) \<in> set acts"
proof (induction acts rule: rev_induct)
  case Nil
  then show ?case using assms by (simp add: run_def)
next
  case (snoc a acts)
  show ?case
  proof
    fix e assume e: "e \<in> set (connections (run s0 (acts @ [a])))"
    with step_connections[of "run s0 acts" a]
    have "e \<in> (case a of Transport (Conn_open c) \<Rightarrow> insert (conn_peer c, c) (set (connections (run s0 acts)))
              | _ \<Rightarrow> set (connections (run s0 acts)))"
      by (auto simp: run_snoc)
    then consider (new) c where "a = Transport (Conn_open c)" "e = (conn_peer c, c)"
      | (old) "e \<in> set (connections (run s0 acts))"
      by (auto split: action.splits transport_event.splits)
    then show "fst e = conn_peer (snd e) \<and> Transport (Conn_open (snd e)) \<in> set (acts @ [a])"
    proof cases
      case new
      then show ?thesis by simp
    next
      case old
      with snoc.IH show ?thesis by simp
    qed
  qed
qed

text \<open>
  C10. Start from a state with an empty \<^verbatim>\<open>connections\<close> map and let any run \<open>acts\<close> of
  transport events and commands happen. Then every entry of \<^verbatim>\<open>connections\<close> is a channel,
  filed under its peer, whose \<^verbatim>\<open>open\<close> event is in \<open>acts\<close>; a \<^verbatim>\<open>close\<close> event of a channel
  leaves no entry for its peer; every channel \<^verbatim>\<open>sendMessage\<close> sends on has had its
  \<^verbatim>\<open>open\<close> event; and with no user signed in the payload and the echo carry the sender
  \<^verbatim>\<open>'Anonymous'\<close>.
\<close>

theorem connections_only_open:
  assumes "connections s0 = []"
  shows "(\<forall>e \<in> set (connections (run s0 acts)).
            fst e = conn_peer (snd e) \<and> Transport (Conn_open (snd e)) \<in> set acts)
       \<and> Map_get (connections (deliver (run s0 acts) (Conn_closed c))) (conn_peer c) = None
       \<and> (\<forall>c' \<in> set (send_targets (new_effects (run s0 acts)
                         (sendMessage (run s0 acts) user message now))).
             Transport (Conn_open c') \<in> set acts)
       \<and> new_effects (run s0 acts) (sendMessage (run s0 acts) None message now)
           = map (\<lambda>c'. Conn_send c' (JObj [(''type'', JStr ''chat''), (''sender'', JStr ''Anonymous''),
                                           (''content'', JStr message)]))
               (Map_values (connections (run s0 acts)))
             @ [Emit (ChatMessage (JStr ''Anonymous'') (JStr message) now)]"
proof -
  let ?s = "run s0 acts"
  note inv = run_connections_opened[OF assms, of acts]
  have del: "Map_get (connections (deliver ?s (Conn_closed c))) (conn_peer c) = None"
    by (simp add: deliver_connections Map_get_def Map_delete_lookup del: deliver.simps)
  have ne: "new_effects ?s (sendMessage ?s u message now)
              = map (\<lambda>c'. Conn_send c' (chat_data u message)) (Map_values (connections ?s))
                @ [Emit (ChatMessage (JStr (sender_name u)) (JStr message) now)]" for u
    by (simp add: new_effects_def sendMessage_trace)
  have tg: "send_targets (new_effects ?s (sendMessage ?s user message now)) = Map_values (connections ?s)"
    unfolding ne by (rule send_targets_sends)
  have "\<forall>c' \<in> set (Map_values (connections ?s)). Transport (Conn_open c') \<in> set acts"
    using inv by (auto simp: Map_values_def)
  then show ?thesis using inv del ne[of None] unfolding tg
    by (simp add: chat_data_def sender_name_def)
qed

text \<open>
  Two incoming connections of which one has opened: only that one is in the map, and an
  anonymous message is sent on it alone.
\<close>

theorem connections_only_open_witness:
  "connections initial = []
   \<and> connections (run initial [Transport (Incoming_connection bob_conn), Transport (Conn_open bob_conn),
        Transport (Incoming_connection cat_conn)]) = [(''bob'', bob_conn)]
   \<and> new_effects (run initial [Transport (Incoming_connection bob_conn), Transport (Conn_open bob_conn),
        Transport (Incoming_connection cat_conn)])
       (sendMessage (run initial [Transport (Incoming_connection bob_conn), Transport (Conn_open bob_conn),
        Transport (Incoming_connection cat_conn)]) None ''hi'' 1000)
     = [Conn_send bob_conn (JObj [(''type'', JStr ''chat''), (''sender'', JStr ''Anonymous''),
                                  (''content'', JStr ''hi'')]),
        Emit (ChatMessage (JStr ''Anonymous'') (JStr ''hi'') 1000)]"
proof -
  have h: "connections initial = []" by (simp add: initial_def)
  have c: "connections (run initial [Transport (Incoming_connection bob_conn), Transport (Conn_open bob_conn),
        Transport (Incoming_connection cat_conn)]) = [(''bob'', bob_conn)]"
    by (simp add: run_def initial_def on_peer_connection_def handleConnection_def on_conn_open_def
          emit_def perform_def bob_conn_def)
  from connections_only_open[OF h, of "[Transport (Incoming_connection bob_conn),
      Transport (Conn_open bob_conn), Transport (Incoming_connection cat_conn)]" bob_conn None "''hi''" 1000]
  show ?thesis using h unfolding c by (simp add: Map_values_def)
qed

end
